(* ===== verification/Prelude.thy ===== *)
theory Prelude
  imports Main "HOL-Library.Word"
begin

text \<open>
  Shared vocabulary of the Eisenhower board model (\<^verbatim>\<open>src/docs/app/app.js\<close>).
  \<^item> A JavaScript string is a sequence of UTF-16 code units, so it is modelled as
    \<open>js_string = 16 word list\<close>: \<open>length\<close> is JavaScript's \<open>.length\<close> and
    \<open>take n\<close> is \<open>.slice(0, n)\<close>. \<open>js_str\<close> reads an ASCII literal of the source
    (\<open>''light''\<close>) as the code units JavaScript stores for it.
  \<^item> \<open>update_first P f xs\<close> is the idiom
    \<^verbatim>\<open>const t = xs.find(P); if (!t) return; mutate(t)\<close>: \<open>None\<close> is the early
    return, otherwise the first element satisfying \<open>P\<close> is replaced by \<open>f\<close> of it.
  \<^item> \<open>those\<close> (from \<open>List\<close>) is an all-or-nothing \<open>map\<close>: a callback that throws
    aborts the whole \<open>Array.prototype.map\<close>.
  The collection \<open>js_eval\<close> gathers the rules that evaluate the model on concrete
  inputs; component theories add their definitions to it.
\<close>

named_theorems js_eval "rules that evaluate the model of app.js on concrete inputs"

declare Let_def [js_eval]

type_synonym js_string = "16 word list"

definition js_str :: "string \<Rightarrow> js_string" where
  "js_str s = map (\<lambda>c. word_of_nat (of_char c)) s"

fun update_first :: "('a \<Rightarrow> bool) \<Rightarrow> ('a \<Rightarrow> 'a) \<Rightarrow> 'a list \<Rightarrow> 'a list option" where
  "update_first P f [] = None"
| "update_first P f (x # xs) =
     (if P x then Some (f x # xs) else map_option ((#) x) (update_first P f xs))"

subsection \<open>Strings\<close>

lemma js_str_simps [js_eval]:
  "js_str [] = []"
  "js_str (c # s) = word_of_nat (of_char c) # js_str s"
  by (simp_all add: js_str_def)

lemma js_unit_of_char:
  "unat (word_of_nat (of_char c) :: 16 word) = of_char c"
proof -
  have "of_char c < (2::nat) ^ 16"
    using nat_of_char_less_256 [of c] by (simp del: nat_of_char_less_256)
  then show ?thesis by (simp add: unat_of_nat)
qed

lemma inj_js_str: "inj js_str"
proof (rule injI)
  fix s t
  assume "js_str s = js_str t"
  then have "map (\<lambda>u. char_of (unat u)) (js_str s) = map (\<lambda>u. char_of (unat u)) (js_str t)"
    by simp
  then show "s = t"
    by (simp add: js_str_def comp_def js_unit_of_char)
qed

lemma js_str_eq_iff [simp]: "js_str s = js_str t \<longleftrightarrow> s = t"
  using inj_js_str by (auto dest: injD)

lemma js_str_Nil_iff [simp]: "js_str s = [] \<longleftrightarrow> s = []"
  by (simp add: js_str_def)

lemma Nil_eq_js_str_iff [simp]: "[] = js_str s \<longleftrightarrow> s = []"
  by (auto simp: js_str_def)

lemma js_str_mem_iff [simp]: "js_str s \<in> js_str ` A \<longleftrightarrow> s \<in> A"
  using inj_js_str by (auto dest: injD)

lemma length_js_str [simp]: "length (js_str s) = length s"
  by (simp add: js_str_def)

lemma js_str_append [simp]: "js_str (s @ t) = js_str s @ js_str t"
  by (simp add: js_str_def)

lemma dropWhile_all_iff [simp]:
  "(\<forall>x \<in> set (dropWhile P xs). P x) \<longleftrightarrow> (\<forall>x \<in> set xs. P x)"
  by (induction xs) auto

lemma length_filter_eq_iff:
  "length (filter P xs) = length xs \<longleftrightarrow> (\<forall>x \<in> set xs. P x)"
proof
  assume "length (filter P xs) = length xs"
  then show "\<forall>x \<in> set xs. P x"
    by (metis length_filter_less less_irrefl)
qed simp

lemma length_eq_filter_iff:
  "length xs = length (filter P xs) \<longleftrightarrow> (\<forall>x \<in> set xs. P x)"
  using length_filter_eq_iff [of P xs] by linarith

lemma in_set_enumerate_ex:
  "x \<in> set xs \<Longrightarrow> \<exists>i. (i, x) \<in> set (enumerate n xs)"
  by (induction xs arbitrary: n) (auto simp: enumerate_simps)

lemma map_snd_enumerate [simp]: "map snd (enumerate n xs) = xs"
  by (induction xs arbitrary: n) (auto simp: enumerate_simps)

lemma in_set_enumerate_snd: "(i, x) \<in> set (enumerate n xs) \<Longrightarrow> x \<in> set xs"
  by (induction xs arbitrary: n) (auto simp: enumerate_simps)

subsection \<open>Find the first match and mutate it\<close>

lemma update_first_None_iff:
  "update_first P f xs = None \<longleftrightarrow> (\<forall>x \<in> set xs. \<not> P x)"
  by (induction xs) auto

lemma update_first_Some_split:
  "update_first P f xs = Some ys \<Longrightarrow>
     \<exists>us x vs. xs = us @ x # vs \<and> (\<forall>u \<in> set us. \<not> P u) \<and> P x \<and> ys = us @ f x # vs"
proof (induction xs arbitrary: ys)
  case Nil
  then show ?case by simp
next
  case (Cons y xs)
  show ?case
  proof (cases "P y")
    case True
    with Cons.prems show ?thesis by (intro exI [of _ "[]"]) auto
  next
    case False
    with Cons.prems obtain zs where zs: "update_first P f xs = Some zs" and ys: "ys = y # zs"
      by auto
    from Cons.IH [OF zs] obtain us x vs
      where "xs = us @ x # vs" "\<forall>u \<in> set us. \<not> P u" "P x" "zs = us @ f x # vs"
      by blast
    with False ys show ?thesis by (intro exI [of _ "y # us"]) auto
  qed
qed

lemma update_first_Some_iff:
  "(\<exists>ys. update_first P f xs = Some ys) \<longleftrightarrow> (\<exists>x \<in> set xs. P x)"
  by (metis not_None_eq update_first_None_iff)

lemma update_first_append:
  "\<forall>u \<in> set us. \<not> P u \<Longrightarrow> P x \<Longrightarrow> update_first P f (us @ x # vs) = Some (us @ f x # vs)"
  by (induction us) auto

lemma length_update_first:
  "update_first P f xs = Some ys \<Longrightarrow> length ys = length xs"
  by (auto dest: update_first_Some_split)

lemma update_first_all:
  assumes "update_first P f xs = Some ys"
    and "\<forall>x \<in> set xs. Q x" and "\<forall>x. Q x \<longrightarrow> Q (f x)"
  shows "\<forall>y \<in> set ys. Q y"
  using update_first_Some_split [OF assms(1)] assms(2,3) by fastforce

lemma map_update_first:
  assumes "update_first P f xs = Some ys" and "\<forall>x. g (f x) = g x"
  shows "map g ys = map g xs"
  using update_first_Some_split [OF assms(1)] assms(2) by auto

lemma update_first_distinct:
  "distinct (map g xs) \<Longrightarrow>
   update_first (\<lambda>x. g x = i) f xs
     = (if i \<in> g ` set xs then Some (map (\<lambda>x. if g x = i then f x else x) xs) else None)"
proof (induction xs)
  case Nil
  then show ?case by simp
next
  case (Cons x xs)
  have "map (\<lambda>y. if g y = g x then f y else y) xs = xs"
    using Cons.prems by (intro map_idI) (fastforce intro: rev_image_eqI)
  with Cons show ?case by auto
qed

subsection \<open>All-or-nothing map\<close>

lemma those_map_Some_iff:
  "those (map f xs) = Some ys \<longleftrightarrow> list_all2 (\<lambda>x y. f x = Some y) xs ys"
proof (induction xs arbitrary: ys)
  case Nil
  then show ?case by auto
next
  case (Cons x xs)
  then show ?case
    by (cases ys) (auto split: option.splits)
qed

lemma those_map_None_iff:
  "those (map f xs) = None \<longleftrightarrow> (\<exists>x \<in> set xs. f x = None)"
  by (induction xs) (auto split: option.splits)

lemma those_map_total:
  "\<forall>x \<in> set xs. f x = Some (g x) \<Longrightarrow> those (map f xs) = Some (map g xs)"
  by (induction xs) auto

lemma those_map_all:
  assumes "those (map f xs) = Some ys" and "\<forall>x y. f x = Some y \<longrightarrow> Q y"
  shows "\<forall>y \<in> set ys. Q y"
  using assms by (induction xs arbitrary: ys) (auto split: option.splits)

lemma those_map_Some_ex:
  "\<forall>x \<in> set xs. \<exists>y. f x = Some y \<Longrightarrow> \<exists>ys. those (map f xs) = Some ys"
  by (induction xs) auto

lemma list_all2_fst_map:
  "list_all2 (\<lambda>x y. fst y = x) xs ys \<Longrightarrow> map fst ys = xs"
  by (induction rule: list_all2_induct) auto

lemma list_all2_in_set2:
  "list_all2 P xs ys \<Longrightarrow> y \<in> set ys \<Longrightarrow> \<exists>x \<in> set xs. P x y"
  by (induction rule: list_all2_induct) auto

lemma those_map_Some_conv:
  "those (map f xs) = Some ys \<longleftrightarrow> (\<forall>x \<in> set xs. f x \<noteq> None) \<and> ys = map (\<lambda>x. the (f x)) xs"
  by (induction xs arbitrary: ys) (auto split: option.splits)

lemma map_insort_key:
  "\<forall>y \<in> insert x (set xs). k' (g y) = k y \<Longrightarrow>
   map g (insort_key k x xs) = insort_key k' (g x) (map g xs)"
  by (induction xs) auto

lemma map_sort_key:
  "\<forall>y \<in> set xs. k' (g y) = k y \<Longrightarrow> map g (sort_key k xs) = sort_key k' (map g xs)"
proof (induction xs)
  case Nil
  then show ?case by simp
next
  case (Cons x xs)
  then have "\<forall>y \<in> insert x (set (sort_key k xs)). k' (g y) = k y"
    by simp
  with Cons show ?case
    by (simp add: map_insort_key)
qed

lemma list_all2_map_eq:
  "list_all2 P xs ys \<Longrightarrow> (\<And>x y. x \<in> set xs \<Longrightarrow> P x y \<Longrightarrow> g y = f x) \<Longrightarrow> map g ys = map f xs"
  by (induction rule: list_all2_induct) auto

end
