(* ===== verification/Json.thy ===== *)
theory Json
  imports Prelude
begin

text \<open>
  The JavaScript values \<^verbatim>\<open>loadState\<close> handles are the ones \<^verbatim>\<open>JSON.parse\<close> builds:
  \<open>null\<close>, booleans, numbers, strings, arrays and plain objects whose own keys are
  distinct (a repeated key keeps its last value). \<open>json\<close> has one constructor per kind.
  JSON numbers are modelled by the integers (the values \<^verbatim>\<open>Date.now()\<close> writes);
  fractions and exponents are not modelled.
  The theory gives the three operations of the language that the hygiene code relies on:
  \<^item> \<open>truthy\<close>: ToBoolean, used by \<^verbatim>\<open>!parsed\<close>, \<^verbatim>\<open>t && ...\<close>, \<^verbatim>\<open>t.text || ""\<close>
    and \<^verbatim>\<open>Boolean(t.completed)\<close>; a missing property is \<open>None\<close> (\<open>undefined\<close>);
  \<^item> \<open>js_get\<close>: reading a named property, \<^verbatim>\<open>t.id\<close>; only objects have the keys the
    program reads (none of them is a key of \<^verbatim>\<open>Object.prototype\<close>);
  \<^item> \<open>js_to_string\<close>: ToString with its TypeError as \<open>None\<close>. An object whose own
    key \<^verbatim>\<open>toString\<close> holds data (never a function in JSON) makes OrdinaryToPrimitive
    fail: the \<^verbatim>\<open>toString\<close> slot is not callable, and \<^verbatim>\<open>valueOf\<close> returns the
    object itself, so ToString throws. Arrays are joined with commas, \<open>null\<close>
    elements giving the empty string (\<^verbatim>\<open>Array.prototype.join\<close>).
\<close>

datatype json =
    JNull
  | JBool bool
  | JNum int
  | JStr js_string
  | JArr "json list"
  | JObj "(js_string \<times> json) list"

fun truthy :: "json \<Rightarrow> bool" where
  "truthy JNull = False"
| "truthy (JBool b) = b"
| "truthy (JNum n) = (n \<noteq> 0)"
| "truthy (JStr s) = (s \<noteq> [])"
| "truthy (JArr xs) = True"
| "truthy (JObj fs) = True"

definition truthy_opt :: "json option \<Rightarrow> bool" where
  "truthy_opt v = (case v of None \<Rightarrow> False | Some j \<Rightarrow> truthy j)"

fun js_get :: "json \<Rightarrow> js_string \<Rightarrow> json option" where
  "js_get (JObj fs) k = map_of fs k"
| "js_get _ k = None"

subsection \<open>Number to string\<close>

text \<open>Decimal digits of an integer, as \<^verbatim>\<open>Number.prototype.toString\<close> writes a safe integer.\<close>

fun nat_to_dec :: "nat \<Rightarrow> js_string" where
  "nat_to_dec n =
     (if n < 10 then [word_of_nat (48 + n)]
      else nat_to_dec (n div 10) @ [word_of_nat (48 + n mod 10)])"

declare nat_to_dec.simps [simp del]

definition int_to_dec :: "int \<Rightarrow> js_string" where
  "int_to_dec i = (if i < 0 then js_str ''-'' @ nat_to_dec (nat (- i)) else nat_to_dec (nat i))"

text \<open>
  The reading back of a decimal numeral, the reference the printing is checked against:
  \<open>dec_value\<close> for the digits, \<open>parse_int\<close> for an optional leading minus sign.
\<close>

definition dec_value :: "js_string \<Rightarrow> nat" where
  "dec_value s = foldl (\<lambda>n c. 10 * n + (unat c - 48)) 0 s"

definition parse_int :: "js_string \<Rightarrow> int" where
  "parse_int s = (case s of c # r \<Rightarrow> if c = 45 then - int (dec_value r) else int (dec_value s)
                           | [] \<Rightarrow> 0)"

subsection \<open>ToString\<close>

fun js_to_string :: "json \<Rightarrow> js_string option"
  and js_join :: "json list \<Rightarrow> js_string option" where
  "js_to_string JNull = Some (js_str ''null'')"
| "js_to_string (JBool b) = Some (if b then js_str ''true'' else js_str ''false'')"
| "js_to_string (JNum n) = Some (int_to_dec n)"
| "js_to_string (JStr s) = Some s"
| "js_to_string (JArr xs) = js_join xs"
| "js_to_string (JObj fs) =
     (if js_str ''toString'' \<in> fst ` set fs then None else Some (js_str ''[object Object]''))"
| "js_join [] = Some []"
| "js_join (x # xs) =
     (case (if x = JNull then Some [] else js_to_string x) of
        None \<Rightarrow> None
      | Some s \<Rightarrow>
          (case xs of
             [] \<Rightarrow> Some s
           | _ \<Rightarrow> map_option (\<lambda>r. s @ js_str '','' @ r) (js_join xs)))"

text \<open>
  \<^verbatim>\<open>String(t.text || "")\<close>: a falsy or missing value gives the empty string, anything
  else its ToString.
\<close>

definition string_or_empty :: "json option \<Rightarrow> js_string option" where
  "string_or_empty v = (if truthy_opt v then js_to_string (the v) else Some [])"

text \<open>ToPropertyKey of a value used as \<^verbatim>\<open>TAGS[v]\<close>: \<open>undefined\<close> is the key \<^verbatim>\<open>"undefined"\<close>.\<close>

definition property_key :: "json option \<Rightarrow> js_string option" where
  "property_key v = (case v of None \<Rightarrow> Some (js_str ''undefined'') | Some j \<Rightarrow> js_to_string j)"

subsection \<open>String.prototype.trim\<close>

text \<open>
  \<^verbatim>\<open>trim\<close> removes leading and trailing WhiteSpace and LineTerminator code points:
  TAB, VT, FF, ZWNBSP, the space separators of Unicode category Zs, LF, CR, LS and PS.
  All of them are in the basic plane, so the test is on single code units.
\<close>

definition js_space_units :: "16 word list" where
  "js_space_units =
     [0x09, 0x0A, 0x0B, 0x0C, 0x0D, 0x20, 0xA0, 0x1680,
      0x2000, 0x2001, 0x2002, 0x2003, 0x2004, 0x2005, 0x2006, 0x2007, 0x2008, 0x2009, 0x200A,
      0x2028, 0x2029, 0x202F, 0x205F, 0x3000, 0xFEFF]"

definition is_js_space :: "16 word \<Rightarrow> bool" where
  "is_js_space c \<longleftrightarrow> c \<in> set js_space_units"

definition trim :: "js_string \<Rightarrow> js_string" where
  "trim s = rev (dropWhile is_js_space (rev (dropWhile is_js_space s)))"

lemmas json_eval [js_eval] =
  truthy_opt_def string_or_empty_def property_key_def int_to_dec_def
  js_space_units_def is_js_space_def trim_def nat_to_dec.simps

lemma truthy_opt_simps [simp]:
  "truthy_opt None = False" "truthy_opt (Some j) = truthy j"
  by (simp_all add: truthy_opt_def)

lemma string_or_empty_JStr [simp]: "string_or_empty (Some (JStr s)) = Some s"
  by (simp add: string_or_empty_def)

lemma trim_Nil_iff: "trim s = [] \<longleftrightarrow> (\<forall>c \<in> set s. is_js_space c)"
  by (simp add: trim_def)

lemma trim_id:
  assumes "s \<noteq> []" and "\<not> is_js_space (hd s)" and "\<not> is_js_space (last s)"
  shows "trim s = s"
proof -
  from assms(1,2) have "dropWhile is_js_space s = s"
    by (cases s) simp_all
  moreover from assms(1,3) have "dropWhile is_js_space (rev s) = rev s"
    by (cases "rev s") (simp_all add: last_rev [symmetric])
  ultimately show ?thesis by (simp add: trim_def)
qed

lemma js_get_JObj_Cons [simp]:
  "js_get (JObj ((k, v) # fs)) k' = (if k' = k then Some v else js_get (JObj fs) k')"
  by simp

lemma digit_unat: "d < 10 \<Longrightarrow> unat (48 + word_of_nat d :: 16 word) = 48 + d"
proof -
  assume "d < 10"
  have "(48 + word_of_nat d :: 16 word) = word_of_nat (48 + d)"
    by simp
  also have "unat (word_of_nat (48 + d) :: 16 word) = 48 + d"
    using \<open>d < 10\<close> by (simp only: unat_of_nat) simp
  finally show ?thesis .
qed

lemma nat_to_dec_digits: "\<forall>c \<in> set (nat_to_dec n). 48 \<le> unat c \<and> unat c \<le> 57"
proof (induction n rule: nat_to_dec.induct)
  case (1 n)
  show ?case
  proof (cases "n < 10")
    case True
    then show ?thesis by (subst nat_to_dec.simps) (simp add: digit_unat)
  next
    case False
    with "1.IH" show ?thesis by (subst nat_to_dec.simps) (simp add: digit_unat)
  qed
qed

lemma nat_to_dec_Nil [simp]: "nat_to_dec n \<noteq> []"
  by (subst nat_to_dec.simps) simp

lemma dec_value_nat_to_dec [simp]: "dec_value (nat_to_dec n) = n"
proof (induction n rule: nat_to_dec.induct)
  case (1 n)
  show ?case
  proof (cases "n < 10")
    case True
    then show ?thesis by (subst nat_to_dec.simps) (simp add: dec_value_def digit_unat)
  next
    case False
    with "1.IH" have "dec_value (nat_to_dec (n div 10)) = n div 10" by simp
    with False show ?thesis
      by (subst nat_to_dec.simps) (simp add: dec_value_def digit_unat)
  qed
qed

lemma parse_int_int_to_dec [simp]: "parse_int (int_to_dec i) = i"
proof (cases "i < 0")
  case True
  then show ?thesis by (simp add: int_to_dec_def parse_int_def js_str_simps)
next
  case False
  obtain c r where cr: "nat_to_dec (nat i) = c # r"
    by (cases "nat_to_dec (nat i)") simp_all
  with nat_to_dec_digits [of "nat i"] have "c \<noteq> 45"
    by auto
  with False cr show ?thesis
    using dec_value_nat_to_dec [of "nat i"] by (simp add: int_to_dec_def parse_int_def)
qed

lemma int_to_dec_no_underscore: "(0x5F :: 16 word) \<notin> set (int_to_dec i)"
  using nat_to_dec_digits [of "nat i"] nat_to_dec_digits [of "nat (- i)"]
  by (auto simp: int_to_dec_def js_str_simps)

end
