(* ===== verification/Board.thy ===== *)
theory Board
  imports Json
begin

text \<open>
  The data of \<^verbatim>\<open>app.js\<close>: the constants \<^verbatim>\<open>STORAGE_KEY\<close>, \<^verbatim>\<open>ZONES\<close> and \<^verbatim>\<open>TAGS\<close>
  (lines 8--18), a task as the six-field object the program builds (\<open>task\<close>), and the
  global \<^verbatim>\<open>state\<close> object (\<open>app_state\<close>): its \<^verbatim>\<open>tasks\<close> array and the other
  own fields of the parsed record, which \<^verbatim>\<open>loadState\<close> keeps and
  \<^verbatim>\<open>saveState\<close> writes back.

  \<^verbatim>\<open>TAGS\<close> is an object literal, so \<^verbatim>\<open>TAGS[k]\<close> also finds the properties every
  object inherits from \<^verbatim>\<open>Object.prototype\<close> (functions, and the prototype object for
  \<^verbatim>\<open>__proto__\<close>): all of them are truthy. \<open>tags_get\<close> returns which of the three
  cases a key is in, and \<open>tag_truthy\<close> is the test \<^verbatim>\<open>TAGS[k] ? ... : ...\<close>.

  \<open>task_ok\<close> is the invariant the code maintains (the hygiene of \<^verbatim>\<open>loadState\<close>):
  text of at most 120 code units, a zone of \<^verbatim>\<open>ZONES\<close>, and a tag whose property key can
  be computed and passes the \<^verbatim>\<open>TAGS\<close> test. The specification's stronger invariant,
  that the tag is one of the five tag names, is \<open>tag_named\<close>.
\<close>

definition STORAGE_KEY :: js_string where
  "STORAGE_KEY = js_str ''eisenhower_scratchpad_v1''"

definition ZONES :: "js_string list" where
  "ZONES = map js_str [''unassigned'', ''do'', ''schedule'', ''delegate'', ''eliminate'']"

definition TAGS :: "(js_string \<times> js_string \<times> js_string) list" where
  "TAGS = map (\<lambda>(k, l, c). (js_str k, js_str l, js_str c))
     [(''light'', ''Light Build'', ''tag-light''),
      (''deep'', ''Deep Build'', ''tag-deep''),
      (''open'', ''Open'', ''tag-open''),
      (''learning'', ''Learning'', ''tag-learning''),
      (''planning'', ''Planning'', ''tag-planning'')]"

definition object_prototype_keys :: "js_string list" where
  "object_prototype_keys = map js_str
     [''constructor'', ''__defineGetter__'', ''__defineSetter__'', ''hasOwnProperty'',
      ''__lookupGetter__'', ''__lookupSetter__'', ''isPrototypeOf'', ''propertyIsEnumerable'',
      ''toString'', ''valueOf'', ''__proto__'', ''toLocaleString'']"

datatype tag_prop =
    TagMeta js_string js_string  \<comment> \<open>an own entry of \<^verbatim>\<open>TAGS\<close>: label and class name\<close>
  | ProtoProp  \<comment> \<open>inherited from \<^verbatim>\<open>Object.prototype\<close>: no label, no class name\<close>
  | NoProp  \<comment> \<open>\<^verbatim>\<open>undefined\<close>\<close>

definition tags_get :: "js_string \<Rightarrow> tag_prop" where
  "tags_get k =
     (case map_of TAGS k of
        Some (l, c) \<Rightarrow> TagMeta l c
      | None \<Rightarrow> if k \<in> set object_prototype_keys then ProtoProp else NoProp)"

definition tag_truthy :: "js_string \<Rightarrow> bool" where
  "tag_truthy k \<longleftrightarrow> tags_get k \<noteq> NoProp"

record task =
  task_id :: js_string
  task_text :: js_string
  tag :: json
  zone :: js_string
  completed :: bool
  createdAt :: int

record app_state =
  tasks :: "task list"
  extra :: "(js_string \<times> json) list"

definition empty_state :: app_state where
  "empty_state = \<lparr>tasks = [], extra = []\<rparr>"

definition tag_ok :: "json \<Rightarrow> bool" where
  "tag_ok j \<longleftrightarrow> (case js_to_string j of None \<Rightarrow> False | Some k \<Rightarrow> tag_truthy k)"

definition task_ok :: "task \<Rightarrow> bool" where
  "task_ok t \<longleftrightarrow> length (task_text t) \<le> 120 \<and> zone t \<in> set ZONES \<and> tag_ok (tag t)"

definition state_ok :: "app_state \<Rightarrow> bool" where
  "state_ok st \<longleftrightarrow> (\<forall>t \<in> set (tasks st). task_ok t) \<and> js_str ''tasks'' \<notin> fst ` set (extra st)"

definition tag_named :: "json \<Rightarrow> bool" where
  "tag_named j \<longleftrightarrow> j \<in> (\<lambda>(k, _). JStr k) ` set TAGS"

lemmas board_eval [js_eval] =
  STORAGE_KEY_def ZONES_def TAGS_def object_prototype_keys_def tags_get_def tag_truthy_def
  empty_state_def tag_ok_def task_ok_def state_ok_def tag_named_def

subsection \<open>Facts about the constants\<close>

lemma light_in_TAGS: "tag_truthy (js_str ''light'')"
  by (simp add: tag_truthy_def tags_get_def TAGS_def)

lemma unassigned_in_ZONES [simp]: "js_str ''unassigned'' \<in> set ZONES"
  by (simp add: ZONES_def)

lemma tag_ok_light [simp]: "tag_ok (JStr (js_str ''light''))"
  by (simp add: tag_ok_def tag_truthy_def tags_get_def TAGS_def)

lemma tag_ok_JStr [simp]: "tag_ok (JStr k) \<longleftrightarrow> tag_truthy k"
  by (simp add: tag_ok_def)

lemma tag_named_iff_key:
  "tag_named j \<longleftrightarrow> (\<exists>k. j = JStr k \<and> tag_truthy k \<and> tags_get k \<noteq> ProtoProp)"
proof
  assume "tag_named j"
  then obtain k v where kv: "(k, v) \<in> set TAGS" and j: "j = JStr k"
    by (auto simp: tag_named_def)
  from kv obtain v' where "map_of TAGS k = Some v'"
    using weak_map_of_SomeI [OF kv] by blast
  with j show "\<exists>k. j = JStr k \<and> tag_truthy k \<and> tags_get k \<noteq> ProtoProp"
    by (auto simp: tag_truthy_def tags_get_def split: prod.split)
next
  assume "\<exists>k. j = JStr k \<and> tag_truthy k \<and> tags_get k \<noteq> ProtoProp"
  then obtain k where j: "j = JStr k" and "tag_truthy k" and "tags_get k \<noteq> ProtoProp"
    by blast
  then obtain v where "map_of TAGS k = Some v"
    by (auto simp: tag_truthy_def tags_get_def split: option.splits if_splits)
  then have "(k, v) \<in> set TAGS"
    by (rule map_of_SomeD)
  with j show "tag_named j"
    by (force simp: tag_named_def)
qed

lemma light_named: "tag_named (JStr (js_str ''light''))"
  by (simp add: tag_named_def TAGS_def)

lemma tag_named_tag_ok: "tag_named j \<Longrightarrow> tag_ok j"
  by (auto simp: tag_named_def tag_ok_def tag_truthy_def tags_get_def TAGS_def)

lemma state_ok_empty [simp]: "state_ok empty_state"
  by (simp add: state_ok_def empty_state_def)

lemma state_ok_tasks_update:
  "state_ok st \<Longrightarrow> \<forall>t \<in> set ts. task_ok t \<Longrightarrow> state_ok (st\<lparr>tasks := ts\<rparr>)"
  by (simp add: state_ok_def)

end
