(* ===== verification/Persistence.thy ===== *)
theory Persistence
  imports Board
begin

text \<open>
  The persistence adapter, \<^verbatim>\<open>loadState\<close> and \<^verbatim>\<open>saveState\<close> (\<^verbatim>\<open>app.js\<close> lines 34--61).
  \<^verbatim>\<open>localStorage\<close> is a map from keys to strings (\<open>store\<close>). \<^verbatim>\<open>JSON.parse\<close> and
  \<^verbatim>\<open>JSON.stringify\<close> are library functions the program only calls, so they are parameters:
  \<open>parse\<close> returns \<open>None\<close> where \<^verbatim>\<open>JSON.parse\<close> throws a SyntaxError, and the theorems
  that need the two to agree assume \<open>json_codec\<close> at the one value they serialise.
  \<^verbatim>\<open>Date.now()\<close> is read once per task whose \<^verbatim>\<open>createdAt\<close> is not a number;
  \<open>clock i\<close> is the reading for the \<open>i\<close>-th task that survives the filter.

  Every way the \<^verbatim>\<open>try\<close> block can throw is a \<open>None\<close> of a helper, and the
  \<^verbatim>\<open>catch\<close> is the \<open>empty_state\<close> of \<open>loadState\<close>: an unparsable record, and a
  ToString that throws inside the \<^verbatim>\<open>map\<close> callback (\<open>clean_task\<close>).
\<close>

definition keep_entry :: "json \<Rightarrow> bool" where
  "keep_entry t \<longleftrightarrow> truthy t \<and> (case js_get t (js_str ''id'') of Some (JStr _) \<Rightarrow> True | _ \<Rightarrow> False)"

definition clean_task :: "int \<Rightarrow> json \<Rightarrow> task option" where
  "clean_task now t =
     (case string_or_empty (js_get t (js_str ''text'')) of
        None \<Rightarrow> None
      | Some str \<Rightarrow>
          (case property_key (js_get t (js_str ''tag'')) of
             None \<Rightarrow> None
           | Some k \<Rightarrow> Some
               \<lparr>task_id = (case js_get t (js_str ''id'') of Some (JStr i) \<Rightarrow> i | _ \<Rightarrow> []),
                task_text = take 120 str,
                tag = (case js_get t (js_str ''tag'') of
                         Some j \<Rightarrow> if tag_truthy k then j else JStr (js_str ''light'')
                       | None \<Rightarrow> JStr (js_str ''light'')),
                zone = (case js_get t (js_str ''zone'') of
                          Some (JStr z) \<Rightarrow> if z \<in> set ZONES then z else js_str ''unassigned''
                        | _ \<Rightarrow> js_str ''unassigned''),
                completed = truthy_opt (js_get t (js_str ''completed'')),
                createdAt = (case js_get t (js_str ''createdAt'') of
                               Some (JNum n) \<Rightarrow> n
                             | _ \<Rightarrow> now)\<rparr>))"

definition clean_tasks :: "(nat \<Rightarrow> int) \<Rightarrow> json list \<Rightarrow> task list option" where
  "clean_tasks clock ts =
     those (map (\<lambda>(i, t). clean_task (clock i) t) (enumerate 0 (filter keep_entry ts)))"

definition other_fields :: "json \<Rightarrow> (js_string \<times> json) list" where
  "other_fields j = (case j of JObj fs \<Rightarrow> filter (\<lambda>(k, _). k \<noteq> js_str ''tasks'') fs | _ \<Rightarrow> [])"

definition loadState ::
  "(js_string \<Rightarrow> json option) \<Rightarrow> (nat \<Rightarrow> int) \<Rightarrow> (js_string \<Rightarrow> js_string option) \<Rightarrow> app_state" where
  "loadState parse clock store =
     (case store STORAGE_KEY of
        None \<Rightarrow> empty_state
      | Some raw \<Rightarrow>
          if raw = [] then empty_state
          else (case parse raw of
                  None \<Rightarrow> empty_state
                | Some parsed \<Rightarrow>
                    if \<not> truthy parsed then empty_state
                    else (case js_get parsed (js_str ''tasks'') of
                            Some (JArr ts) \<Rightarrow>
                              (case clean_tasks clock ts of
                                 None \<Rightarrow> empty_state
                               | Some tks \<Rightarrow> \<lparr>tasks = tks, extra = other_fields parsed\<rparr>)
                          | _ \<Rightarrow> empty_state)))"

definition task_json :: "task \<Rightarrow> json" where
  "task_json t = JObj
     [(js_str ''id'', JStr (task_id t)), (js_str ''text'', JStr (task_text t)),
      (js_str ''tag'', tag t), (js_str ''zone'', JStr (zone t)),
      (js_str ''completed'', JBool (completed t)), (js_str ''createdAt'', JNum (createdAt t))]"

definition state_json :: "app_state \<Rightarrow> json" where
  "state_json st = JObj ((js_str ''tasks'', JArr (map task_json (tasks st))) # extra st)"

definition saveState ::
  "(json \<Rightarrow> js_string) \<Rightarrow> app_state \<Rightarrow> (js_string \<Rightarrow> js_string option) \<Rightarrow> (js_string \<Rightarrow> js_string option)" where
  "saveState stringify st store = store(STORAGE_KEY \<mapsto> stringify (state_json st))"

text \<open>
  The contract of the JSON library at one value: \<^verbatim>\<open>JSON.stringify\<close> of an object is a
  non-empty text that \<^verbatim>\<open>JSON.parse\<close> reads back as the same value.
\<close>

definition json_codec :: "(js_string \<Rightarrow> json option) \<Rightarrow> (json \<Rightarrow> js_string) \<Rightarrow> json \<Rightarrow> bool" where
  "json_codec parse stringify j \<longleftrightarrow> stringify j \<noteq> [] \<and> parse (stringify j) = Some j"

text \<open>
  The persisted layout of the specification (section 6): a record whose \<^verbatim>\<open>tasks\<close>
  field is an array of task objects with a string \<^verbatim>\<open>id\<close>, a string \<^verbatim>\<open>text\<close> of at
  most 120 code units, a \<^verbatim>\<open>zone\<close> of \<^verbatim>\<open>ZONES\<close>, a boolean \<^verbatim>\<open>completed\<close> and a
  number \<^verbatim>\<open>createdAt\<close>. For the tag the code guarantees less than the specification:
  a value that passes the \<^verbatim>\<open>TAGS\<close> test (\<open>tag_ok\<close>), not necessarily a string.
\<close>

definition task_schema :: "json \<Rightarrow> bool" where
  "task_schema j \<longleftrightarrow>
     (case js_get j (js_str ''id'') of Some (JStr _) \<Rightarrow> True | _ \<Rightarrow> False)
     \<and> (case js_get j (js_str ''text'') of Some (JStr s) \<Rightarrow> length s \<le> 120 | _ \<Rightarrow> False)
     \<and> (case js_get j (js_str ''tag'') of Some g \<Rightarrow> tag_ok g | None \<Rightarrow> False)
     \<and> (case js_get j (js_str ''zone'') of Some (JStr z) \<Rightarrow> z \<in> set ZONES | _ \<Rightarrow> False)
     \<and> (case js_get j (js_str ''completed'') of Some (JBool _) \<Rightarrow> True | _ \<Rightarrow> False)
     \<and> (case js_get j (js_str ''createdAt'') of Some (JNum _) \<Rightarrow> True | _ \<Rightarrow> False)"

definition state_schema :: "json \<Rightarrow> bool" where
  "state_schema j \<longleftrightarrow> (case js_get j (js_str ''tasks'') of Some (JArr xs) \<Rightarrow> list_all task_schema xs | _ \<Rightarrow> False)"

lemmas persistence_eval [js_eval] =
  keep_entry_def clean_task_def clean_tasks_def other_fields_def loadState_def
  task_json_def state_json_def saveState_def json_codec_def

subsection \<open>Helper facts\<close>

lemma clean_task_zone:
  "(case js_get t (js_str ''zone'') of
      Some (JStr z) \<Rightarrow> if z \<in> set ZONES then z else js_str ''unassigned''
    | _ \<Rightarrow> js_str ''unassigned'') \<in> set ZONES"
  by (simp split: option.split json.split)

lemma clean_task_tag:
  "property_key (js_get t (js_str ''tag'')) = Some k \<Longrightarrow>
   tag_ok (case js_get t (js_str ''tag'') of
             Some j \<Rightarrow> if tag_truthy k then j else JStr (js_str ''light'')
           | None \<Rightarrow> JStr (js_str ''light''))"
  by (simp add: property_key_def tag_ok_def light_in_TAGS split: option.split_asm option.split)

lemma clean_task_ok:
  assumes "clean_task now t = Some x"
  shows "task_ok x"
proof -
  from assms obtain s k where
      "property_key (js_get t (js_str ''tag'')) = Some k"
    and "x = \<lparr>task_id = (case js_get t (js_str ''id'') of Some (JStr i) \<Rightarrow> i | _ \<Rightarrow> []),
                task_text = take 120 s,
                tag = (case js_get t (js_str ''tag'') of
                         Some j \<Rightarrow> if tag_truthy k then j else JStr (js_str ''light'')
                       | None \<Rightarrow> JStr (js_str ''light'')),
                zone = (case js_get t (js_str ''zone'') of
                          Some (JStr z) \<Rightarrow> if z \<in> set ZONES then z else js_str ''unassigned''
                        | _ \<Rightarrow> js_str ''unassigned''),
                completed = truthy_opt (js_get t (js_str ''completed'')),
                createdAt = (case js_get t (js_str ''createdAt'') of
                               Some (JNum n) \<Rightarrow> n
                             | _ \<Rightarrow> now)\<rparr>"
    unfolding clean_task_def by (auto split: option.splits)
  then show ?thesis
    by (simp add: task_ok_def clean_task_zone clean_task_tag)
qed

lemma clean_tasks_ok:
  "clean_tasks clock ts = Some xs \<Longrightarrow> \<forall>x \<in> set xs. task_ok x"
  unfolding clean_tasks_def
  by (erule those_map_all) (auto intro: clean_task_ok)

lemma other_fields_no_tasks:
  "js_str ''tasks'' \<notin> fst ` set (other_fields j)"
  by (auto simp: other_fields_def split: json.splits)

lemma keep_task_json [simp]: "keep_entry (task_json t)"
  by (simp add: keep_entry_def task_json_def)

lemma clean_task_json:
  assumes "task_ok t"
  shows "clean_task now (task_json t) = Some t"
proof -
  from assms obtain k where "js_to_string (tag t) = Some k" "tag_truthy k"
    and "length (task_text t) \<le> 120" and "zone t \<in> set ZONES"
    by (auto simp: task_ok_def tag_ok_def split: option.splits)
  then show ?thesis
    by (cases t) (simp add: clean_task_def task_json_def property_key_def)
qed

lemma clean_tasks_json_enum:
  "\<forall>t \<in> set ts. task_ok t \<Longrightarrow>
     those (map (\<lambda>(i, t). clean_task (clock i) t) (enumerate n (map task_json ts))) = Some ts"
  by (induction ts arbitrary: n) (simp_all add: clean_task_json)

lemma clean_tasks_json:
  "\<forall>t \<in> set ts. task_ok t \<Longrightarrow> clean_tasks clock (map task_json ts) = Some ts"
  by (simp add: clean_tasks_def clean_tasks_json_enum)

lemma other_fields_state_json:
  "js_str ''tasks'' \<notin> fst ` set (extra st) \<Longrightarrow> other_fields (state_json st) = extra st"
  by (force simp: other_fields_def state_json_def filter_id_conv)

lemma loadState_stored:
  assumes "state_ok st" and "store STORAGE_KEY = Some raw" and "raw \<noteq> []"
    and "parse raw = Some (state_json st)"
  shows "loadState parse clock store = st"
proof -
  from assms(1) have ts: "\<forall>t \<in> set (tasks st). task_ok t"
    and ex: "js_str ''tasks'' \<notin> fst ` set (extra st)"
    by (simp_all add: state_ok_def)
  have "js_get (state_json st) (js_str ''tasks'') = Some (JArr (map task_json (tasks st)))"
    by (simp add: state_json_def)
  with ts ex assms(2-4) show ?thesis
    by (cases st) (simp add: loadState_def clean_tasks_json other_fields_state_json, simp add: state_json_def)
qed

lemma clean_tasks_None:
  assumes "t \<in> set ts" and "keep_entry t" and "\<forall>n. clean_task n t = None"
  shows "clean_tasks clock ts = None"
proof -
  from assms(1,2) have "t \<in> set (filter keep_entry ts)" by simp
  then obtain i where "(i, t) \<in> set (enumerate 0 (filter keep_entry ts))"
    by (metis in_set_enumerate_ex)
  with assms(3) show ?thesis
    by (force simp: clean_tasks_def those_map_None_iff)
qed

lemma loadState_shape:
  "loadState parse clock store = empty_state
   \<or> (\<exists>ts parsed tks. clean_tasks clock ts = Some tks
         \<and> loadState parse clock store = \<lparr>tasks = tks, extra = other_fields parsed\<rparr>)"
  by (auto simp: loadState_def split: option.split json.split)

lemma other_fields_no_tasks_mem:
  "(js_str ''tasks'', v) \<in> set (other_fields j) \<Longrightarrow> False"
  using other_fields_no_tasks [of j] by force

lemma clean_task_id:
  "keep_entry e \<Longrightarrow> clean_task n e = Some x \<Longrightarrow> JStr (task_id x) = the (js_get e (js_str ''id''))"
  by (auto simp: keep_entry_def clean_task_def split: option.splits json.splits)

subsection \<open>Properties of the adapter\<close>

text \<open>
  C9. Whatever the stored record holds, the state \<^verbatim>\<open>loadState\<close> returns satisfies the
  hygiene invariant: every task's text has at most 120 code units, its zone is one of
  \<^verbatim>\<open>ZONES\<close>, and its tag passes the \<^verbatim>\<open>TAGS\<close> test; no extra field shadows
  \<^verbatim>\<open>tasks\<close>.
\<close>

theorem loadState_state_ok: "state_ok (loadState parse clock store)"
  using loadState_shape [of parse clock store]
  by (auto simp: state_ok_def empty_state_def dest: clean_tasks_ok other_fields_no_tasks_mem)

theorem loadState_state_ok_witness:
  "state_ok (loadState (\<lambda>_. Some (JObj [(js_str ''tasks'', JArr [JObj [(js_str ''id'', JStr (js_str ''a'')),
                                     (js_str ''zone'', JStr (js_str ''later''))]])]))
               (\<lambda>_. 5) (Map.empty(STORAGE_KEY \<mapsto> js_str ''{}'')))
   \<and> map zone (tasks (loadState (\<lambda>_. Some (JObj [(js_str ''tasks'', JArr [JObj [(js_str ''id'', JStr (js_str ''a'')),
                                     (js_str ''zone'', JStr (js_str ''later''))]])]))
               (\<lambda>_. 5) (Map.empty(STORAGE_KEY \<mapsto> js_str ''{}''))))
       = [js_str ''unassigned'']"
  using loadState_state_ok [of "\<lambda>_. Some (JObj [(js_str ''tasks'', JArr [JObj [(js_str ''id'', JStr (js_str ''a'')),
                                     (js_str ''zone'', JStr (js_str ''later''))]])])" "\<lambda>_. 5"
                               "Map.empty(STORAGE_KEY \<mapsto> js_str ''{}'')"]
  by (simp add: loadState_def clean_tasks_def keep_entry_def clean_task_def string_or_empty_def
                property_key_def ZONES_def)

text \<open>
  C11. Saving a state that satisfies the invariant and loading it again gives the same
  state back, whenever \<^verbatim>\<open>JSON.parse\<close> reads back what \<^verbatim>\<open>JSON.stringify\<close> wrote.
\<close>

theorem load_save_roundtrip:
  assumes "state_ok st" and "json_codec parse stringify (state_json st)"
  shows "loadState parse clock (saveState stringify st store) = st"
  using assms
  by (intro loadState_stored [where raw = "stringify (state_json st)"])
     (simp_all add: saveState_def json_codec_def)

theorem load_save_roundtrip_witness:
  "state_ok \<lparr>tasks = [\<lparr>task_id = js_str ''1_a'', task_text = js_str ''Write spec'',
                          tag = JStr (js_str ''deep''), zone = js_str ''do'', completed = True,
                          createdAt = 7\<rparr>], extra = []\<rparr>
   \<and> loadState (\<lambda>_. Some (state_json \<lparr>tasks = [\<lparr>task_id = js_str ''1_a'', task_text = js_str ''Write spec'',
                          tag = JStr (js_str ''deep''), zone = js_str ''do'', completed = True,
                          createdAt = 7\<rparr>], extra = []\<rparr>)) (\<lambda>_. 0)
       (saveState (\<lambda>_. js_str ''{}'') \<lparr>tasks = [\<lparr>task_id = js_str ''1_a'', task_text = js_str ''Write spec'',
                          tag = JStr (js_str ''deep''), zone = js_str ''do'', completed = True,
                          createdAt = 7\<rparr>], extra = []\<rparr> Map.empty)
     = \<lparr>tasks = [\<lparr>task_id = js_str ''1_a'', task_text = js_str ''Write spec'',
                          tag = JStr (js_str ''deep''), zone = js_str ''do'', completed = True,
                          createdAt = 7\<rparr>], extra = []\<rparr>"
proof -
  have ok: "state_ok \<lparr>tasks = [\<lparr>task_id = js_str ''1_a'', task_text = js_str ''Write spec'',
                          tag = JStr (js_str ''deep''), zone = js_str ''do'', completed = True,
                          createdAt = 7\<rparr>], extra = []\<rparr>"
    by (simp add: state_ok_def task_ok_def ZONES_def tag_truthy_def tags_get_def TAGS_def)
  show ?thesis
    using ok load_save_roundtrip [OF ok] by (simp add: json_codec_def)
qed

text \<open>
  C12. A stored record that \<^verbatim>\<open>JSON.parse\<close> rejects, or that has no \<^verbatim>\<open>tasks\<close> array,
  loads as the empty board instead of failing.
\<close>

theorem loadState_corrupt:
  assumes "store STORAGE_KEY = Some raw"
    and "parse raw = None \<or> (\<exists>j. parse raw = Some j \<and> (\<forall>ts. js_get j (js_str ''tasks'') \<noteq> Some (JArr ts)))"
  shows "loadState parse clock store = empty_state"
  using assms by (auto simp: loadState_def split: option.split json.split)

theorem loadState_corrupt_witness:
  "loadState (\<lambda>_. None) (\<lambda>_. 0) (Map.empty(STORAGE_KEY \<mapsto> js_str ''{tasks:'')) = empty_state"
  by (rule loadState_corrupt [where raw = "js_str ''{tasks:''"]) simp_all

text \<open>
  C19. One task whose \<^verbatim>\<open>text\<close> is an object with an own \<^verbatim>\<open>toString\<close> key makes
  \<^verbatim>\<open>String(t.text || "")\<close> throw inside the \<^verbatim>\<open>map\<close> callback; the \<^verbatim>\<open>catch\<close>
  then discards every task of the record, not only that one.
\<close>

theorem loadState_bad_text_drops_all:
  assumes "store STORAGE_KEY = Some raw" and "parse raw = Some parsed"
    and "js_get parsed (js_str ''tasks'') = Some (JArr ts)"
    and "t \<in> set ts" and "keep_entry t"
    and "js_get t (js_str ''text'') = Some (JObj fs)" and "js_str ''toString'' \<in> fst ` set fs"
  shows "loadState parse clock store = empty_state"
proof -
  from assms(6,7) have "\<forall>n. clean_task n t = None"
    by (simp add: clean_task_def string_or_empty_def)
  with assms(4,5) have "clean_tasks clock ts = None"
    by (rule clean_tasks_None)
  with assms(1-3) show ?thesis
    by (auto simp: loadState_def split: option.split)
qed

theorem loadState_bad_text_drops_all_witness:
  "loadState (\<lambda>_. Some (JObj [(js_str ''tasks'', JArr
        [JObj [(js_str ''id'', JStr (js_str ''a'')), (js_str ''text'', JObj [(js_str ''toString'', JNum 1)])],
         JObj [(js_str ''id'', JStr (js_str ''b'')), (js_str ''text'', JStr (js_str ''kept?''))]])]))
     (\<lambda>_. 0) (Map.empty(STORAGE_KEY \<mapsto> js_str ''{}'')) = empty_state"
  by (rule loadState_bad_text_drops_all
        [where raw = "js_str ''{}''"
         and parsed = "JObj [(js_str ''tasks'', JArr
              [JObj [(js_str ''id'', JStr (js_str ''a'')), (js_str ''text'', JObj [(js_str ''toString'', JNum 1)])],
               JObj [(js_str ''id'', JStr (js_str ''b'')), (js_str ''text'', JStr (js_str ''kept?''))]])]"
         and ts = "[JObj [(js_str ''id'', JStr (js_str ''a'')),
                 (js_str ''text'', JObj [(js_str ''toString'', JNum 1)])],
               JObj [(js_str ''id'', JStr (js_str ''b'')), (js_str ''text'', JStr (js_str ''kept?''))]]"
         and t = "JObj [(js_str ''id'', JStr (js_str ''a'')), (js_str ''text'', JObj [(js_str ''toString'', JNum 1)])]"
         and fs = "[(js_str ''toString'', JNum 1)]"])
     (simp_all add: keep_entry_def)

text \<open>
  C35. \<^verbatim>\<open>saveState\<close> writes a record of the persisted layout whenever the state meets
  the hygiene invariant (which every loaded and every reachable state does, C9 and C15):
  the \<^verbatim>\<open>tasks\<close> array holds one object per task with fields of the specified types.
\<close>

theorem state_json_schema:
  assumes "state_ok st"
  shows "state_schema (state_json st)"
proof -
  from assms have "\<forall>t \<in> set (tasks st). task_ok t"
    by (simp add: state_ok_def)
  then have "list_all task_schema (map task_json (tasks st))"
    by (auto simp: list_all_iff task_schema_def task_json_def task_ok_def)
  then show ?thesis
    by (simp add: state_schema_def state_json_def)
qed

theorem state_json_schema_witness:
  "state_schema (state_json \<lparr>tasks = [\<lparr>task_id = js_str ''1_a'', task_text = js_str ''Write spec'',
      tag = JStr (js_str ''deep''), zone = js_str ''do'', completed = True, createdAt = 2\<rparr>], extra = []\<rparr>)"
proof -
  have "state_ok \<lparr>tasks = [\<lparr>task_id = js_str ''1_a'', task_text = js_str ''Write spec'',
      tag = JStr (js_str ''deep''), zone = js_str ''do'', completed = True, createdAt = 2\<rparr>], extra = []\<rparr>"
    by (simp add: state_ok_def task_ok_def ZONES_def tag_ok_def tag_truthy_def tags_get_def TAGS_def)
  from state_json_schema [OF this] show ?thesis .
qed

text \<open>
  C17. The specification says an unrecognised tag falls back to \<^verbatim>\<open>light\<close>, so that a
  loaded tag is always one of the five names. \<^verbatim>\<open>loadState\<close> instead keeps the stored
  value whenever \<^verbatim>\<open>TAGS[t.tag]\<close> is truthy: for every entry it loads, the tag is
  outside the five names exactly when the stored value passes that test without being one
  of the five strings, that is, when its property key is a key every object inherits from
  \<^verbatim>\<open>Object.prototype\<close> (such as \<^verbatim>\<open>"toString"\<close>) or when it is not a string but
  converts to a tag name (such as the array \<^verbatim>\<open>["deep"]\<close>).
\<close>

theorem clean_task_tag_outside_enum:
  assumes "clean_task now e = Some t" and "js_get e (js_str ''tag'') = Some g"
  shows "\<not> tag_named (tag t)
         \<longleftrightarrow> (\<exists>k. js_to_string g = Some k \<and> tag_truthy k \<and> \<not> (g = JStr k \<and> tags_get k \<noteq> ProtoProp))"
proof -
  from assms obtain k where k: "js_to_string g = Some k"
    and t: "tag t = (if tag_truthy k then g else JStr (js_str ''light''))"
    by (auto simp: clean_task_def property_key_def split: option.splits)
  show ?thesis
  proof (cases "tag_truthy k")
    case True
    have "tag_named g \<longleftrightarrow> g = JStr k \<and> tags_get k \<noteq> ProtoProp"
      using k True by (auto simp: tag_named_iff_key)
    with True k t show ?thesis by simp
  next
    case False
    with k t show ?thesis by (simp add: light_named)
  qed
qed

theorem clean_task_tag_outside_enum_witness:
  "\<not> tag_named (tag (the (clean_task 0 (JObj [(js_str ''id'', JStr (js_str ''a'')),
                                            (js_str ''tag'', JArr [JStr (js_str ''deep'')])]))))"
proof -
  let ?e = "JObj [(js_str ''id'', JStr (js_str ''a'')), (js_str ''tag'', JArr [JStr (js_str ''deep'')])]"
  have c: "clean_task 0 ?e = Some (the (clean_task 0 ?e))"
    by (simp add: clean_task_def string_or_empty_def property_key_def tag_truthy_def tags_get_def
                  TAGS_def js_str_simps)
  have "\<exists>k. js_to_string (JArr [JStr (js_str ''deep'')]) = Some k \<and> tag_truthy k
          \<and> \<not> (JArr [JStr (js_str ''deep'')] = JStr k \<and> tags_get k \<noteq> ProtoProp)"
    by (simp add: tag_truthy_def tags_get_def TAGS_def)
  with clean_task_tag_outside_enum [OF c, of "JArr [JStr (js_str ''deep'')]"] show ?thesis
    by simp
qed

text \<open>
  C20. The specification requires ids to be unique, but \<^verbatim>\<open>loadState\<close> does not check
  it: whenever the stored record loads, the loaded tasks carry exactly the ids of the
  entries the filter keeps, in order, so repeated ids are all kept (and
  \<^verbatim>\<open>toggleCompleted\<close> and \<^verbatim>\<open>moveTask\<close> then reach only the first of them, C6).
\<close>

theorem loadState_keeps_duplicate_ids:
  assumes "store STORAGE_KEY = Some raw" and "raw \<noteq> []" and "parse raw = Some p" and "truthy p"
    and "js_get p (js_str ''tasks'') = Some (JArr es)" and "clean_tasks clock es \<noteq> None"
  shows "map (\<lambda>t. JStr (task_id t)) (tasks (loadState parse clock store))
           = map (\<lambda>e. the (js_get e (js_str ''id''))) (filter keep_entry es)"
proof -
  from assms(6) obtain ts where ts: "clean_tasks clock es = Some ts"
    by blast
  with assms(1-5) have l: "tasks (loadState parse clock store) = ts"
    by (simp add: loadState_def)
  from ts have "list_all2 (\<lambda>(i, e) x. clean_task (clock i) e = Some x) (enumerate 0 (filter keep_entry es)) ts"
    by (simp add: clean_tasks_def those_map_Some_iff case_prod_beta')
  then have "map (\<lambda>t. JStr (task_id t)) ts
               = map (\<lambda>p. the (js_get (snd p) (js_str ''id''))) (enumerate 0 (filter keep_entry es))"
  proof (rule list_all2_map_eq)
    fix q y
    assume q: "q \<in> set (enumerate 0 (filter keep_entry es))"
      and c: "(\<lambda>(i, e) x. clean_task (clock i) e = Some x) q y"
    obtain i e where qe: "q = (i, e)"
      by fastforce
    from q qe have "keep_entry e"
      by (auto dest: in_set_enumerate_snd)
    with c qe show "JStr (task_id y) = the (js_get (snd q) (js_str ''id''))"
      by (simp add: clean_task_id)
  qed
  also have "\<dots> = map (\<lambda>e. the (js_get e (js_str ''id''))) (filter keep_entry es)"
    using map_map [of "\<lambda>e. the (js_get e (js_str ''id''))" snd "enumerate 0 (filter keep_entry es)"]
    by (simp add: comp_def)
  finally show ?thesis
    using l by simp
qed

theorem loadState_keeps_duplicate_ids_witness:
  "map task_id (tasks (loadState
      (\<lambda>_. Some (JObj [(js_str ''tasks'', JArr [JObj [(js_str ''id'', JStr (js_str ''a''))],
                                               JObj [(js_str ''id'', JStr (js_str ''a''))]])]))
      (\<lambda>_. 0) (Map.empty(STORAGE_KEY \<mapsto> js_str ''{}''))))
   = [js_str ''a'', js_str ''a'']"
proof -
  let ?es = "[JObj [(js_str ''id'', JStr (js_str ''a''))], JObj [(js_str ''id'', JStr (js_str ''a''))]]"
  let ?parse = "\<lambda>_ :: js_string. Some (JObj [(js_str ''tasks'', JArr ?es)])"
  have h: "clean_tasks (\<lambda>_. 0) ?es \<noteq> None"
    by (simp add: clean_tasks_def keep_entry_def clean_task_def string_or_empty_def property_key_def
                  tag_truthy_def tags_get_def TAGS_def object_prototype_keys_def)
  from loadState_keeps_duplicate_ids [of "Map.empty(STORAGE_KEY \<mapsto> js_str ''{}'')" "js_str ''{}''" ?parse,
          OF _ _ _ _ _ h]
  have "map JStr (map task_id (tasks (loadState ?parse (\<lambda>_. 0) (Map.empty(STORAGE_KEY \<mapsto> js_str ''{}'')))))
          = map JStr [js_str ''a'', js_str ''a'']"
    by (simp add: keep_entry_def comp_def)
  then show ?thesis
    by (subst (asm) inj_map_eq_map) (simp_all add: inj_def)
qed

end
