(* ===== verification/View.thy ===== *)
theory View
  imports Board "HOL-Library.Multiset"
begin

text \<open>
  The view renderer (\<^verbatim>\<open>app.js\<close> lines 63--143). The DOM is not modelled as a tree; a
  render produces the view description the DOM receives: for each zone of \<^verbatim>\<open>ZONES\<close> whose
  \<^verbatim>\<open>.dropzone\<close> element exists (\<open>present\<close>), in \<^verbatim>\<open>ZONES\<close> order, the cards appended
  to it. A card records what \<^verbatim>\<open>renderTask\<close> writes: \<^verbatim>\<open>data-task-id\<close>, the class of the
  wrapper, the class and text of the badge, and the task text. The fixed parts of a card
  (\<^verbatim>\<open>draggable\<close>, the done indicator) and the event listeners are not recorded; the
  listeners are the handlers of the interaction layer.

  \<^verbatim>\<open>Array.prototype.sort\<close> with a consistent comparator is a stable sort (ECMAScript
  2019 and later); \<open>js_sort\<close> is the stable insertion sort by a comparator, the
  reference behaviour every conforming engine has. \<open>sortByCreatedAt\<close> is the
  comparator of line 63.

  \<^verbatim>\<open>TAGS[task.tag] || TAGS.light\<close> computes a property key, which throws for a tag
  object with an own \<^verbatim>\<open>toString\<close>; \<open>renderTask\<close> and \<open>render\<close> return \<open>None\<close>
  there (the partly filled DOM a throwing render leaves is not modelled). A key inherited
  from \<^verbatim>\<open>Object.prototype\<close> has neither \<^verbatim>\<open>label\<close> nor \<^verbatim>\<open>className\<close>: the badge
  class is then \<^verbatim>\<open>"badge undefined"\<close> and its text empty (\<^verbatim>\<open>textContent = undefined\<close>
  clears it).
\<close>

definition sortByCreatedAt :: "task \<Rightarrow> task \<Rightarrow> int" where
  "sortByCreatedAt a b = createdAt a - createdAt b"

fun insort_cmp :: "('a \<Rightarrow> 'a \<Rightarrow> int) \<Rightarrow> 'a \<Rightarrow> 'a list \<Rightarrow> 'a list" where
  "insort_cmp cmp x [] = [x]"
| "insort_cmp cmp x (y # ys) = (if cmp x y \<le> 0 then x # y # ys else y # insort_cmp cmp x ys)"

definition js_sort :: "('a \<Rightarrow> 'a \<Rightarrow> int) \<Rightarrow> 'a list \<Rightarrow> 'a list" where
  "js_sort cmp xs = foldr (insort_cmp cmp) xs []"

definition getTasksInZone :: "app_state \<Rightarrow> js_string \<Rightarrow> task list" where
  "getTasksInZone st z = js_sort sortByCreatedAt (filter (\<lambda>t. zone t = z) (tasks st))"

record card =
  card_task :: js_string
  card_class :: js_string
  badge_class :: js_string
  badge_label :: js_string
  card_text :: js_string

type_synonym view = "(js_string \<times> card list) list"

definition tag_meta :: "js_string \<Rightarrow> js_string option \<times> js_string option" where
  "tag_meta k =
     (case tags_get k of
        TagMeta l c \<Rightarrow> (Some l, Some c)
      | ProtoProp \<Rightarrow> (None, None)
      | NoProp \<Rightarrow> (Some (js_str ''Light Build''), Some (js_str ''tag-light'')))"

definition renderTask :: "task \<Rightarrow> card option" where
  "renderTask t =
     (case js_to_string (tag t) of
        None \<Rightarrow> None
      | Some k \<Rightarrow>
          (let m = tag_meta k in
           Some \<lparr>card_task = task_id t,
                 card_class = js_str ''task'' @ (if completed t then js_str '' completed'' else []),
                 badge_class = js_str ''badge '' @ (case snd m of None \<Rightarrow> js_str ''undefined'' | Some c \<Rightarrow> c),
                 badge_label = (case fst m of None \<Rightarrow> [] | Some l \<Rightarrow> l),
                 card_text = task_text t\<rparr>))"

definition render :: "(js_string \<Rightarrow> bool) \<Rightarrow> app_state \<Rightarrow> view option" where
  "render present st =
     those (map (\<lambda>z. map_option (Pair z) (those (map renderTask (getTasksInZone st z))))
                (filter present ZONES))"

lemmas view_eval [js_eval] =
  sortByCreatedAt_def js_sort_def getTasksInZone_def tag_meta_def renderTask_def render_def

subsection \<open>The sort\<close>

lemma insort_cmp_createdAt:
  "insort_cmp sortByCreatedAt x xs = insort_key createdAt x xs"
  by (induction xs) (simp_all add: sortByCreatedAt_def)

lemma js_sort_createdAt:
  "js_sort sortByCreatedAt xs = sort_key createdAt xs"
  by (induction xs) (simp_all add: js_sort_def insort_cmp_createdAt)

lemma renderTask_ok:
  "tag_ok (tag t) \<Longrightarrow> \<exists>c. renderTask t = Some c"
  by (auto simp: renderTask_def tag_ok_def Let_def split: option.splits)

lemma set_getTasksInZone:
  "set (getTasksInZone st z) = {t \<in> set (tasks st). zone t = z}"
  by (auto simp: getTasksInZone_def js_sort_createdAt)

lemma renderTask_zone_ok:
  "\<forall>t \<in> set (tasks st). tag_ok (tag t) \<Longrightarrow>
   \<exists>cs. those (map renderTask (getTasksInZone st z)) = Some cs"
  by (intro those_map_Some_ex) (auto simp: set_getTasksInZone intro: renderTask_ok)

lemma renderTask_card_task: "renderTask t = Some c \<Longrightarrow> card_task c = task_id t"
  by (auto simp: renderTask_def Let_def split: option.splits)

lemma render_card_task:
  assumes "render present st = Some v" and "(z, cs) \<in> set v" and "c \<in> set cs"
  shows "\<exists>t \<in> set (tasks st). zone t = z \<and> card_task c = task_id t"
proof -
  from assms(1) have "list_all2 (\<lambda>z y. map_option (Pair z) (those (map renderTask (getTasksInZone st z))) = Some y)
                        (filter present ZONES) v"
    by (simp add: render_def those_map_Some_iff)
  from list_all2_in_set2 [OF this assms(2)]
  have cs: "those (map renderTask (getTasksInZone st z)) = Some cs"
    by auto
  then have "list_all2 (\<lambda>t c. renderTask t = Some c) (getTasksInZone st z) cs"
    by (simp add: those_map_Some_iff)
  from list_all2_in_set2 [OF this assms(3)] obtain t
    where "t \<in> set (getTasksInZone st z)" and "renderTask t = Some c"
    by blast
  then show ?thesis
    by (auto simp: set_getTasksInZone dest: renderTask_card_task)
qed

lemma render_Some:
  assumes "\<forall>t \<in> set (tasks st). tag_ok (tag t)"
  shows "\<exists>v. render present st = Some v"
proof -
  have "\<forall>z \<in> set (filter present ZONES).
          \<exists>y. map_option (Pair z) (those (map renderTask (getTasksInZone st z))) = Some y"
    using renderTask_zone_ok [OF assms] by fastforce
  from those_map_Some_ex [OF this] show ?thesis
    by (simp add: render_def)
qed

lemma render_card_ids:
  assumes "render present st = Some v"
  shows "map (\<lambda>(z, cs). map card_task cs) v = map (\<lambda>z. map task_id (getTasksInZone st z)) (filter present ZONES)"
proof -
  let ?f = "\<lambda>z. map_option (Pair z) (those (map renderTask (getTasksInZone st z)))"
  from assms have ok: "\<forall>z \<in> set (filter present ZONES). ?f z \<noteq> None"
    and v: "v = map (\<lambda>z. the (?f z)) (filter present ZONES)"
    by (simp_all add: render_def those_map_Some_conv)
  have each: "(\<lambda>(z, cs). map card_task cs) (the (?f z)) = map task_id (getTasksInZone st z)"
    if "?f z \<noteq> None" for z
  proof -
    from that obtain cs where cs: "those (map renderTask (getTasksInZone st z)) = Some cs"
      by auto
    then have "list_all2 (\<lambda>t c. renderTask t = Some c) (getTasksInZone st z) cs"
      by (simp add: those_map_Some_iff)
    then have "map card_task cs = map task_id (getTasksInZone st z)"
      by (induction rule: list_all2_induct) (auto dest: renderTask_card_task)
    with cs show ?thesis by simp
  qed
  show ?thesis
    unfolding v map_map comp_def using ok each by (intro map_cong) auto
qed

lemma filter_mset_disj:
  "\<forall>x. \<not> (P x \<and> Q x) \<Longrightarrow> filter_mset (\<lambda>x. P x \<or> Q x) M = filter_mset P M + filter_mset Q M"
  by (induction M rule: multiset_induct) auto

lemma mset_zone_cards:
  "distinct zs \<Longrightarrow>
   mset (concat (map (\<lambda>z. map task_id (getTasksInZone st z)) zs))
     = mset (map task_id (filter (\<lambda>t. zone t \<in> set zs) (tasks st)))"
proof (induction zs)
  case Nil
  then show ?case by simp
next
  case (Cons z zs)
  have g: "mset (map task_id (getTasksInZone st z)) = mset (map task_id (filter (\<lambda>t. zone t = z) (tasks st)))"
    by (simp add: getTasksInZone_def js_sort_createdAt)
  have "\<forall>t. \<not> (zone t = z \<and> zone t \<in> set zs)"
    using Cons.prems by auto
  then have "filter_mset (\<lambda>t. zone t = z \<or> zone t \<in> set zs) (mset (tasks st))
               = filter_mset (\<lambda>t. zone t = z) (mset (tasks st)) + filter_mset (\<lambda>t. zone t \<in> set zs) (mset (tasks st))"
    by (rule filter_mset_disj)
  with Cons g show ?case
    by simp
qed

subsection \<open>Properties of the renderer\<close>

text \<open>
  C7. The tasks rendered in a zone are the tasks of that zone (the same multiset), in
  ascending \<^verbatim>\<open>createdAt\<close> order, and tasks with equal \<^verbatim>\<open>createdAt\<close> keep the order
  they have in the collection.
\<close>

theorem getTasksInZone_sorted:
  "sorted (map createdAt (getTasksInZone st z))
   \<and> mset (getTasksInZone st z) = mset (filter (\<lambda>t. zone t = z) (tasks st))
   \<and> (\<forall>c. filter (\<lambda>t. createdAt t = c) (getTasksInZone st z)
          = filter (\<lambda>t. zone t = z \<and> createdAt t = c) (tasks st))"
  by (simp add: getTasksInZone_def js_sort_createdAt sort_key_stable filter_filter)

text \<open>
  C8. \<^verbatim>\<open>sortByCreatedAt\<close> is a consistent comparator in the sense of
  \<^verbatim>\<open>Array.prototype.sort\<close>: it orders exactly as \<^verbatim>\<open>createdAt\<close> does and swapping
  its arguments flips its sign, so the engine's sort with it is the stable sort by
  \<^verbatim>\<open>createdAt\<close> (\<open>sort_key\<close>), whatever the engine's algorithm.
\<close>

theorem sortByCreatedAt_consistent:
  "(sortByCreatedAt a b \<le> 0 \<longleftrightarrow> createdAt a \<le> createdAt b)
   \<and> sgn (sortByCreatedAt a b) = - sgn (sortByCreatedAt b a)
   \<and> js_sort sortByCreatedAt xs = sort_key createdAt xs"
proof -
  have "sortByCreatedAt b a = - sortByCreatedAt a b"
    by (simp add: sortByCreatedAt_def)
  then have "sgn (sortByCreatedAt a b) = - sgn (sortByCreatedAt b a)"
    by (simp add: sgn_minus)
  then show ?thesis
    by (simp add: sortByCreatedAt_def js_sort_createdAt)
qed

text \<open>
  C14. On a state whose tags all pass the \<^verbatim>\<open>TAGS\<close> test, \<^verbatim>\<open>render()\<close> does not
  throw, and it fills exactly the zones whose element is on the page, in \<^verbatim>\<open>ZONES\<close>
  order.
\<close>

theorem render_total:
  assumes "\<forall>t \<in> set (tasks st). tag_ok (tag t)"
  shows "\<exists>v. render present st = Some v \<and> map fst v = filter present ZONES"
proof -
  from render_Some [OF assms] obtain v where v: "render present st = Some v"
    by blast
  let ?f = "\<lambda>z. map_option (Pair z) (those (map renderTask (getTasksInZone st z)))"
  from v have "list_all2 (\<lambda>z y. ?f z = Some y) (filter present ZONES) v"
    by (simp only: render_def those_map_Some_iff)
  then have "list_all2 (\<lambda>z y. fst y = z) (filter present ZONES) v"
    by (rule list_all2_mono) auto
  then have "map fst v = filter present ZONES"
    by (rule list_all2_fst_map)
  with v show ?thesis
    by blast
qed

theorem render_total_witness:
  "\<exists>v. render (\<lambda>_. True) \<lparr>tasks = [\<lparr>task_id = js_str ''1_a'', task_text = js_str ''Write spec'',
                  tag = JStr (js_str ''deep''), zone = js_str ''do'', completed = True, createdAt = 2\<rparr>],
                  extra = []\<rparr> = Some v \<and> map fst v = ZONES"
proof -
  have h: "\<forall>t \<in> set (tasks \<lparr>tasks = [\<lparr>task_id = js_str ''1_a'', task_text = js_str ''Write spec'',
                  tag = JStr (js_str ''deep''), zone = js_str ''do'', completed = True, createdAt = 2\<rparr>],
                  extra = []\<rparr>). tag_ok (tag t)"
    by (simp add: tag_ok_def tag_truthy_def tags_get_def TAGS_def)
  show ?thesis
    using render_total [OF h, of "\<lambda>_. True"] by simp
qed

text \<open>
  C32. \<^verbatim>\<open>render()\<close> shows every task whose zone is one of \<^verbatim>\<open>ZONES\<close> and is on
  the page exactly once, and nothing else: the task ids of all cards are, as a multiset,
  the ids of those tasks.
\<close>

theorem render_shows_each_task_once:
  assumes "render present st = Some v"
  shows "mset (concat (map (\<lambda>(z, cs). map card_task cs) v))
           = mset (map task_id (filter (\<lambda>t. zone t \<in> set ZONES \<and> present (zone t)) (tasks st)))"
proof -
  have d: "distinct (filter present ZONES)"
    by (simp add: ZONES_def)
  have "filter (\<lambda>t. zone t \<in> set (filter present ZONES)) (tasks st)
          = filter (\<lambda>t. zone t \<in> set ZONES \<and> present (zone t)) (tasks st)"
    by simp
  with render_card_ids [OF assms] mset_zone_cards [OF d, of st] show ?thesis
    by simp
qed

theorem render_shows_each_task_once_witness:
  "mset (concat (map (\<lambda>(z, cs). map card_task cs)
     (the (render (\<lambda>_. True) \<lparr>tasks = [\<lparr>task_id = js_str ''1_a'', task_text = js_str ''Write spec'',
                  tag = JStr (js_str ''deep''), zone = js_str ''do'', completed = True, createdAt = 2\<rparr>],
                  extra = []\<rparr>))))
   = {# js_str ''1_a'' #}"
proof -
  let ?st = "\<lparr>tasks = [\<lparr>task_id = js_str ''1_a'', task_text = js_str ''Write spec'',
                  tag = JStr (js_str ''deep''), zone = js_str ''do'', completed = True, createdAt = 2\<rparr>],
                  extra = []\<rparr>"
  have "\<forall>t \<in> set (tasks ?st). tag_ok (tag t)"
    by (simp add: tag_ok_def tag_truthy_def tags_get_def TAGS_def)
  from render_Some [OF this, of "\<lambda>_. True"] obtain v where v: "render (\<lambda>_. True) ?st = Some v"
    by blast
  from render_shows_each_task_once [OF v] v show ?thesis
    by (simp add: ZONES_def)
qed

end
