(* ===== verification/Controller.thy ===== *)
theory Controller
  imports Persistence View
begin

text \<open>
  The task board controller (\<^verbatim>\<open>app.js\<close> lines 20, 30--32 and 145--188). The program's
  global \<^verbatim>\<open>state\<close>, \<^verbatim>\<open>localStorage\<close> and the rendered DOM together are a
  \<open>world\<close>; each operation returns the next world. An operation that changes the
  collection calls \<^verbatim>\<open>saveState()\<close> and then \<^verbatim>\<open>render()\<close>: \<open>commit\<close> is that pair.
  The page supplies \<^verbatim>\<open>JSON.stringify\<close> and which \<^verbatim>\<open>.dropzone\<close> elements exist
  (\<open>page\<close>). \<^verbatim>\<open>Date.now()\<close> and \<^verbatim>\<open>Math.random()\<close> are inputs of \<open>addTask\<close>:
  \<open>t_id\<close> and \<open>rnd\<close> are the readings \<^verbatim>\<open>uid()\<close> uses (\<open>rnd\<close> is
  \<^verbatim>\<open>Math.random().toString(16).slice(2)\<close>), \<open>t_created\<close> the one \<^verbatim>\<open>createdAt\<close> takes.
\<close>

record page =
  stringify :: "json \<Rightarrow> js_string"
  present :: "js_string \<Rightarrow> bool"

record world =
  state :: app_state
  storage :: "js_string \<Rightarrow> js_string option"
  shown :: "view option"

definition init_world ::
  "page \<Rightarrow> (js_string \<Rightarrow> json option) \<Rightarrow> (nat \<Rightarrow> int) \<Rightarrow> (js_string \<Rightarrow> js_string option) \<Rightarrow> world" where
  "init_world pg parse clock store =
     (let st = loadState parse clock store in \<lparr>state = st, storage = store, shown = render (present pg) st\<rparr>)"

definition commit :: "page \<Rightarrow> app_state \<Rightarrow> world \<Rightarrow> world" where
  "commit pg st w =
     \<lparr>state = st, storage = saveState (stringify pg) st (storage w), shown = render (present pg) st\<rparr>"

definition uid :: "int \<Rightarrow> js_string \<Rightarrow> js_string" where
  "uid t_id rnd = int_to_dec t_id @ js_str ''_'' @ rnd"

text \<open>
  Reading an id back: the timestamp before the first \<^verbatim>\<open>_\<close> and the random part
  after it (the decoder the id format is checked against).
\<close>

definition uid_parts :: "js_string \<Rightarrow> int \<times> js_string" where
  "uid_parts s = (parse_int (takeWhile (\<lambda>c. c \<noteq> 0x5F) s), drop 1 (dropWhile (\<lambda>c. c \<noteq> 0x5F) s))"

definition new_task :: "int \<Rightarrow> js_string \<Rightarrow> int \<Rightarrow> js_string \<Rightarrow> js_string \<Rightarrow> task" where
  "new_task t_id rnd t_created tg cleaned =
     \<lparr>task_id = uid t_id rnd,
      task_text = take 120 cleaned,
      tag = JStr (if tag_truthy tg then tg else js_str ''light''),
      zone = js_str ''unassigned'',
      completed = False,
      createdAt = t_created\<rparr>"

definition addTask ::
  "page \<Rightarrow> int \<Rightarrow> js_string \<Rightarrow> int \<Rightarrow> js_string \<Rightarrow> js_string \<Rightarrow> world \<Rightarrow> world" where
  "addTask pg t_id rnd t_created tg txt w =
     (let cleaned = trim txt in
      if cleaned = [] then w
      else commit pg ((state w)\<lparr>tasks := tasks (state w) @ [new_task t_id rnd t_created tg cleaned]\<rparr>) w)"

definition toggleCompleted :: "page \<Rightarrow> js_string \<Rightarrow> world \<Rightarrow> world" where
  "toggleCompleted pg taskId w =
     (case update_first (\<lambda>x. task_id x = taskId) (\<lambda>t. t\<lparr>completed := \<not> completed t\<rparr>)
             (tasks (state w)) of
        None \<Rightarrow> w
      | Some ts \<Rightarrow> commit pg ((state w)\<lparr>tasks := ts\<rparr>) w)"

definition moveTask :: "page \<Rightarrow> js_string \<Rightarrow> js_string \<Rightarrow> world \<Rightarrow> world" where
  "moveTask pg taskId z w =
     (case update_first (\<lambda>x. task_id x = taskId) (\<lambda>t. t\<lparr>zone := z\<rparr>) (tasks (state w)) of
        None \<Rightarrow> w
      | Some ts \<Rightarrow> if z \<notin> set ZONES then w else commit pg ((state w)\<lparr>tasks := ts\<rparr>) w)"

definition clearCompleted :: "page \<Rightarrow> world \<Rightarrow> world" where
  "clearCompleted pg w =
     (let before = length (tasks (state w));
          w' = w\<lparr>state := (state w)\<lparr>tasks := filter (\<lambda>t. \<not> completed t) (tasks (state w))\<rparr>\<rparr>;
          after = length (tasks (state w'))
      in if before \<noteq> after then commit pg (state w') w' else w')"

lemmas controller_eval [js_eval] =
  init_world_def commit_def uid_def new_task_def addTask_def toggleCompleted_def moveTask_def
  clearCompleted_def

subsection \<open>Operations as one step function\<close>

text \<open>
  The four operations are what the handlers of the interaction layer call; \<open>action\<close>
  names one call with its arguments and the environment readings it takes, and
  \<open>run_action\<close> performs it.
\<close>

datatype action =
    AddTask int js_string int js_string js_string
  | Toggle js_string
  | Move js_string js_string
  | ClearCompleted

fun run_action :: "page \<Rightarrow> world \<Rightarrow> action \<Rightarrow> world" where
  "run_action pg w (AddTask t_id rnd t_created tg txt) = addTask pg t_id rnd t_created tg txt w"
| "run_action pg w (Toggle i) = toggleCompleted pg i w"
| "run_action pg w (Move i z) = moveTask pg i z w"
| "run_action pg w ClearCompleted = clearCompleted pg w"

text \<open>
  \<open>commits w a\<close> is the condition under which the call reaches its
  \<^verbatim>\<open>saveState(); render();\<close>: the negation of its early returns. The interaction
  layer needs it, because every \<^verbatim>\<open>render()\<close> replaces all card elements.
\<close>

fun commits :: "world \<Rightarrow> action \<Rightarrow> bool" where
  "commits w (AddTask t_id rnd t_created tg txt) = (trim txt \<noteq> [])"
| "commits w (Toggle i) = (\<exists>t \<in> set (tasks (state w)). task_id t = i)"
| "commits w (Move i z) = ((\<exists>t \<in> set (tasks (state w)). task_id t = i) \<and> z \<in> set ZONES)"
| "commits w ClearCompleted = (\<exists>t \<in> set (tasks (state w)). completed t)"

subsection \<open>Reachable worlds\<close>

text \<open>
  A page load boots a world from the stored record (\<^verbatim>\<open>let state = loadState()\<close>, then
  the \<^verbatim>\<open>render()\<close> of line 227); afterwards every world is the result of one more
  operation. \<open>store0\<close> is \<^verbatim>\<open>localStorage\<close> as the page found it.
\<close>

inductive reachable ::
  "page \<Rightarrow> (js_string \<Rightarrow> json option) \<Rightarrow> (nat \<Rightarrow> int) \<Rightarrow> (js_string \<Rightarrow> js_string option) \<Rightarrow> world \<Rightarrow> bool"
  for pg parse clock store0 where
  boot: "reachable pg parse clock store0 (init_world pg parse clock store0)"
| step: "reachable pg parse clock store0 w \<Longrightarrow> reachable pg parse clock store0 (run_action pg w a)"

text \<open>A page and an empty world, used by the witnesses below.\<close>

abbreviation demo_page :: page where
  "demo_page \<equiv> \<lparr>stringify = (\<lambda>_. js_str ''{}''), present = (\<lambda>_. True)\<rparr>"

abbreviation empty_world :: world where
  "empty_world \<equiv> \<lparr>state = empty_state, storage = Map.empty, shown = Some []\<rparr>"

abbreviation demo_task :: task where
  "demo_task \<equiv> \<lparr>task_id = js_str ''1_a'', task_text = js_str ''Write spec'', tag = JStr (js_str ''deep''),
                 zone = js_str ''unassigned'', completed = False, createdAt = 2\<rparr>"

abbreviation demo_parse :: "js_string \<Rightarrow> json option" where
  "demo_parse \<equiv> (\<lambda>_. Some (state_json \<lparr>tasks = [demo_task], extra = []\<rparr>))"

abbreviation demo_world :: world where
  "demo_world \<equiv> empty_world\<lparr>state := \<lparr>tasks = [demo_task], extra = []\<rparr>\<rparr>"

subsection \<open>Helper facts\<close>

lemma commit_simps [simp]:
  "state (commit pg st w) = st"
  "storage (commit pg st w) = saveState (stringify pg) st (storage w)"
  "shown (commit pg st w) = render (present pg) st"
  by (simp_all add: commit_def)

lemma new_task_ok:
  "length (take 120 cleaned) \<le> 120 \<Longrightarrow> task_ok (new_task t_id rnd t_created tg cleaned)"
  by (simp add: new_task_def task_ok_def light_in_TAGS)

lemma commit_commit [simp]: "commit pg st (commit pg st' w) = commit pg st w"
  by (simp add: commit_def saveState_def)

lemma task_ok_completed [simp]: "task_ok (t\<lparr>completed := b\<rparr>) = task_ok t"
  by (simp add: task_ok_def)

lemma task_ok_zone: "z \<in> set ZONES \<Longrightarrow> task_ok t \<Longrightarrow> task_ok (t\<lparr>zone := z\<rparr>)"
  by (simp add: task_ok_def)

lemma clearCompleted_eq:
  "clearCompleted pg w =
     (if \<exists>t \<in> set (tasks (state w)). completed t
      then commit pg ((state w)\<lparr>tasks := filter (\<lambda>t. \<not> completed t) (tasks (state w))\<rparr>) w
      else w)"
  by (auto simp: clearCompleted_def Let_def commit_def length_filter_eq_iff length_eq_filter_iff filter_id_conv)

lemma addTask_ok:
  "state_ok (state w) \<Longrightarrow> state_ok (state (addTask pg t_id rnd t_created tg txt w))"
  by (simp add: addTask_def Let_def state_ok_def new_task_ok)

lemma toggleCompleted_ok:
  assumes "state_ok (state w)"
  shows "state_ok (state (toggleCompleted pg taskId w))"
proof (cases "update_first (\<lambda>x. task_id x = taskId) (\<lambda>t. t\<lparr>completed := \<not> completed t\<rparr>)
                (tasks (state w))")
  case (Some ts)
  from assms have "\<forall>t \<in> set ts. task_ok t"
    by (intro update_first_all [OF Some]) (simp_all add: state_ok_def)
  with Some assms show ?thesis
    by (simp add: toggleCompleted_def state_ok_tasks_update)
qed (simp add: toggleCompleted_def assms)

lemma moveTask_ok:
  assumes "state_ok (state w)"
  shows "state_ok (state (moveTask pg taskId z w))"
proof (cases "update_first (\<lambda>x. task_id x = taskId) (\<lambda>t. t\<lparr>zone := z\<rparr>) (tasks (state w))")
  case (Some ts)
  show ?thesis
  proof (cases "z \<in> set ZONES")
    case True
    with assms have "\<forall>t \<in> set ts. task_ok t"
      by (intro update_first_all [OF Some]) (simp_all add: state_ok_def task_ok_zone)
    with Some True assms show ?thesis
      by (simp add: moveTask_def state_ok_tasks_update)
  qed (simp add: moveTask_def Some assms)
qed (simp add: moveTask_def assms)

lemma clearCompleted_ok:
  "state_ok (state w) \<Longrightarrow> state_ok (state (clearCompleted pg w))"
  by (simp add: clearCompleted_eq state_ok_def)

lemma run_action_cases:
  "run_action pg w a = w \<or> run_action pg w a = commit pg (state (run_action pg w a)) w"
proof (cases a)
  case (AddTask t_id rnd t_created tg s)
  then show ?thesis by (simp add: addTask_def Let_def)
next
  case (Toggle i)
  then show ?thesis by (simp add: toggleCompleted_def split: option.split)
next
  case (Move i z)
  then show ?thesis by (simp add: moveTask_def split: option.split)
next
  case ClearCompleted
  then show ?thesis by (simp add: clearCompleted_eq)
qed

lemma run_action_commits:
  "run_action pg w a = (if commits w a then commit pg (state (run_action pg w a)) w else w)"
proof (cases a)
  case (AddTask t_id rnd t_created tg s)
  then show ?thesis by (simp add: addTask_def Let_def)
next
  case (Toggle i)
  then show ?thesis
    by (auto simp: toggleCompleted_def update_first_None_iff split: option.split
             dest: update_first_Some_split)
next
  case (Move i z)
  then show ?thesis
    by (auto simp: moveTask_def update_first_None_iff split: option.split
             dest: update_first_Some_split)
next
  case ClearCompleted
  then show ?thesis by (simp add: clearCompleted_eq)
qed

lemma surrogate_not_space:
  "0xD800 \<le> c \<Longrightarrow> c \<le> 0xDFFF \<Longrightarrow> \<not> is_js_space c"
  by (auto simp: is_js_space_def js_space_units_def)

lemma reachable_inv:
  assumes "reachable pg parse clock store0 w"
  shows "state_ok (state w) \<and> shown w = render (present pg) (state w)
         \<and> (\<forall>k. k \<noteq> STORAGE_KEY \<longrightarrow> storage w k = store0 k)
         \<and> (storage w = store0 \<or> storage w STORAGE_KEY = Some (stringify pg (state_json (state w))))"
  using assms
proof (induction rule: reachable.induct)
  case boot
  have "state_ok (loadState parse clock store0)"
    using loadState_shape [of parse clock store0]
    by (auto simp: state_ok_def empty_state_def dest: clean_tasks_ok other_fields_no_tasks_mem)
  then show ?case by (simp add: init_world_def Let_def)
next
  case (step w a)
  from step.IH have ok: "state_ok (state (run_action pg w a))"
    by (cases a) (simp_all add: addTask_ok toggleCompleted_ok moveTask_ok clearCompleted_ok)
  from run_action_cases [of pg w a] show ?case
  proof
    assume "run_action pg w a = w"
    with step.IH show ?thesis by simp
  next
    assume c: "run_action pg w a = commit pg (state (run_action pg w a)) w"
    have "storage (run_action pg w a) = saveState (stringify pg) (state (run_action pg w a)) (storage w)"
      by (subst c) simp
    with ok step.IH c show ?thesis
      by (simp add: saveState_def) (metis commit_simps(3))
  qed
qed

subsection \<open>Properties of the operations\<close>

text \<open>
  C1. \<^verbatim>\<open>addTask\<close> with a text that is empty after \<^verbatim>\<open>trim()\<close> (white space only,
  Unicode spaces included) returns early: the collection, the stored record and the view
  are unchanged.
\<close>

theorem addTask_blank_noop:
  assumes "\<forall>c \<in> set input. is_js_space c"
  shows "addTask pg t_id rnd t_created tg input w = w"
  using assms by (simp add: addTask_def trim_Nil_iff)

theorem addTask_blank_noop_witness:
  "addTask demo_page 1 (js_str ''a'') 2 (js_str ''deep'') (js_str '' '' @ [0x3000, 0xA0]) demo_world
     = demo_world"
proof -
  have h: "\<forall>c \<in> set (js_str '' '' @ [0x3000, 0xA0]). is_js_space c"
    by (simp add: is_js_space_def js_space_units_def js_str_simps)
  show ?thesis
    by (rule addTask_blank_noop [OF h])
qed

text \<open>
  C2. \<^verbatim>\<open>addTask\<close> with a text that is not blank appends one task: its id is
  \<^verbatim>\<open>uid()\<close>, its text the trimmed input cut to its first 120 code units, its tag the
  selected tag if \<^verbatim>\<open>TAGS\<close> has it and \<^verbatim>\<open>light\<close> otherwise, zone
  \<^verbatim>\<open>unassigned\<close>, not completed, created at the reading of the clock. The new
  collection is then saved under \<^verbatim>\<open>STORAGE_KEY\<close> and rendered.
\<close>

theorem addTask_appends:
  assumes "trim input \<noteq> []"
  shows "let w' = addTask pg t_id rnd t_created tg input w in
         \<exists>t. tasks (state w') = tasks (state w) @ [t] \<and> extra (state w') = extra (state w)
           \<and> task_id t = uid t_id rnd \<and> task_text t = take 120 (trim input)
           \<and> tag t = JStr (if tag_truthy tg then tg else js_str ''light'')
           \<and> zone t = js_str ''unassigned'' \<and> \<not> completed t \<and> createdAt t = t_created
           \<and> storage w' = (storage w)(STORAGE_KEY \<mapsto> stringify pg (state_json (state w')))
           \<and> shown w' = render (present pg) (state w')"
  using assms by (simp add: addTask_def new_task_def Let_def saveState_def)

theorem addTask_appends_witness:
  "trim (js_str '' Write spec  '') \<noteq> []
   \<and> tasks (state (addTask demo_page 1 (js_str ''a'') 2 (js_str ''deep'') (js_str '' Write spec  '')
                   empty_world)) = [demo_task]"
  using addTask_appends [of "js_str '' Write spec  ''" demo_page 1 "js_str ''a''" 2
                            "js_str ''deep''" empty_world]
  by (simp add: js_eval)

text \<open>
  C3. \<^verbatim>\<open>clearCompleted\<close> leaves exactly the tasks that are not completed, in their
  order and with their fields untouched, and keeps the other fields of the state. It saves
  and re-renders only when it removed a task; otherwise storage and view are as before.
\<close>

theorem clearCompleted_removes_completed:
  "let w' = clearCompleted pg w in
     tasks (state w') = filter (\<lambda>t. \<not> completed t) (tasks (state w))
     \<and> extra (state w') = extra (state w)
     \<and> storage w' = (if \<exists>t \<in> set (tasks (state w)). completed t
                     then (storage w)(STORAGE_KEY \<mapsto> stringify pg (state_json (state w')))
                     else storage w)
     \<and> shown w' = (if \<exists>t \<in> set (tasks (state w)). completed t
                   then render (present pg) (state w') else shown w)"
  by (auto simp: clearCompleted_def Let_def saveState_def length_filter_eq_iff length_eq_filter_iff filter_id_conv)

text \<open>
  C4. \<^verbatim>\<open>moveTask\<close> with an id no task has, or with a zone outside \<^verbatim>\<open>ZONES\<close>,
  changes nothing: not the collection, not the stored record, not the view.
\<close>

theorem moveTask_invalid_noop:
  assumes "(\<forall>t \<in> set (tasks (state w)). task_id t \<noteq> taskId) \<or> z \<notin> set ZONES"
  shows "moveTask pg taskId z w = w"
proof (cases "\<forall>t \<in> set (tasks (state w)). task_id t \<noteq> taskId")
  case True
  then show ?thesis
    by (simp add: moveTask_def update_first_None_iff [THEN iffD2])
next
  case False
  with assms have "z \<notin> set ZONES" by blast
  then show ?thesis
    by (simp add: moveTask_def split: option.split)
qed

theorem moveTask_invalid_noop_witness:
  "moveTask demo_page (js_str ''1_a'') (js_str ''later'') demo_world = demo_world"
proof -
  have "js_str ''later'' \<notin> set ZONES"
    by (simp add: ZONES_def)
  then show ?thesis
    by (intro moveTask_invalid_noop) simp
qed

text \<open>
  C5. \<^verbatim>\<open>moveTask\<close> with a valid zone sets the zone of the first task with that id,
  leaves every other task as it was, then saves and re-renders.
\<close>

theorem moveTask_moves:
  assumes "tasks (state w) = us @ t # vs" and "\<forall>u \<in> set us. task_id u \<noteq> taskId"
    and "task_id t = taskId" and "z \<in> set ZONES"
  shows "moveTask pg taskId z w = commit pg ((state w)\<lparr>tasks := us @ t\<lparr>zone := z\<rparr> # vs\<rparr>) w"
  using assms by (simp add: moveTask_def update_first_append)

theorem moveTask_moves_witness:
  "tasks (state demo_world) = [] @ demo_task # [] \<and> task_id demo_task = js_str ''1_a''
   \<and> js_str ''do'' \<in> set ZONES
   \<and> tasks (state (moveTask demo_page (js_str ''1_a'') (js_str ''do'') demo_world))
       = [demo_task\<lparr>zone := js_str ''do''\<rparr>]"
  using moveTask_moves [of demo_world "[]" demo_task "[]" "js_str ''1_a''" "js_str ''do''" demo_page]
  by (simp add: ZONES_def)

text \<open>
  C6. \<^verbatim>\<open>toggleCompleted\<close> flips the completed flag of the first task with the id and
  nothing else, then saves and re-renders; toggling twice restores the collection (and
  saves it); an id no task has changes nothing.
\<close>

theorem toggleCompleted_spec:
  assumes "tasks (state w) = us @ t # vs" and "\<forall>u \<in> set us. task_id u \<noteq> taskId"
    and "task_id t = taskId"
  shows "toggleCompleted pg taskId w
           = commit pg ((state w)\<lparr>tasks := us @ t\<lparr>completed := \<not> completed t\<rparr> # vs\<rparr>) w
         \<and> toggleCompleted pg taskId (toggleCompleted pg taskId w) = commit pg (state w) w
         \<and> (\<forall>x. (\<forall>u \<in> set (tasks (state w)). task_id u \<noteq> x) \<longrightarrow> toggleCompleted pg x w = w)"
proof -
  have once: "toggleCompleted pg taskId w
      = commit pg ((state w)\<lparr>tasks := us @ t\<lparr>completed := \<not> completed t\<rparr> # vs\<rparr>) w"
    using assms by (simp add: toggleCompleted_def update_first_append)
  have "toggleCompleted pg taskId
          (commit pg ((state w)\<lparr>tasks := us @ t\<lparr>completed := \<not> completed t\<rparr> # vs\<rparr>) w)
      = commit pg ((state w)\<lparr>tasks := us @ t # vs\<rparr>) w"
    using assms by (simp add: toggleCompleted_def update_first_append)
  moreover have "(state w)\<lparr>tasks := us @ t # vs\<rparr> = state w"
    using assms(1) by simp
  moreover have "\<forall>x. (\<forall>u \<in> set (tasks (state w)). task_id u \<noteq> x) \<longrightarrow> toggleCompleted pg x w = w"
    by (simp add: toggleCompleted_def update_first_None_iff [THEN iffD2])
  ultimately show ?thesis
    using once by simp
qed

theorem toggleCompleted_spec_witness:
  "tasks (state demo_world) = [] @ demo_task # [] \<and> task_id demo_task = js_str ''1_a''
   \<and> tasks (state (toggleCompleted demo_page (js_str ''1_a'') demo_world))
       = [demo_task\<lparr>completed := True\<rparr>]"
  using toggleCompleted_spec [of demo_world "[]" demo_task "[]" "js_str ''1_a''" demo_page]
  by simp

text \<open>
  C10. Every operation keeps the hygiene invariant of the state: text of at most 120
  code units, a zone of \<^verbatim>\<open>ZONES\<close>, a tag that passes the \<^verbatim>\<open>TAGS\<close> test.
\<close>

theorem run_action_state_ok:
  assumes "state_ok (state w)"
  shows "state_ok (state (run_action pg w a))"
  using assms
  by (cases a) (simp_all add: addTask_ok toggleCompleted_ok moveTask_ok clearCompleted_ok)

theorem run_action_state_ok_witness:
  "state_ok (state demo_world)
   \<and> state_ok (state (run_action demo_page demo_world (Move (js_str ''1_a'') (js_str ''do''))))"
proof -
  have ok: "state_ok (state demo_world)"
    by (simp add: js_eval)
  show ?thesis
    using ok run_action_state_ok [OF ok, of demo_page "Move (js_str ''1_a'') (js_str ''do'')"]
    by simp
qed

text \<open>
  C15. In every world reachable from a page load: the state satisfies the hygiene
  invariant, the view on the page is the render of the current state (every change was
  followed by a full re-render), and no key of \<^verbatim>\<open>localStorage\<close> other than
  \<^verbatim>\<open>STORAGE_KEY\<close> was ever written.
\<close>

theorem reachable_world_ok:
  assumes "reachable pg parse clock store0 w"
  shows "state_ok (state w) \<and> shown w = render (present pg) (state w)
         \<and> (\<forall>k. k \<noteq> STORAGE_KEY \<longrightarrow> storage w k = store0 k)"
  using reachable_inv [OF assms] by blast

theorem reachable_world_ok_witness:
  "reachable demo_page (\<lambda>_. None) (\<lambda>_. 0) Map.empty
     (run_action demo_page (init_world demo_page (\<lambda>_. None) (\<lambda>_. 0) Map.empty) ClearCompleted)
   \<and> state_ok (state (run_action demo_page (init_world demo_page (\<lambda>_. None) (\<lambda>_. 0) Map.empty)
                         ClearCompleted))"
proof -
  have r: "reachable demo_page (\<lambda>_. None) (\<lambda>_. 0) Map.empty
     (run_action demo_page (init_world demo_page (\<lambda>_. None) (\<lambda>_. 0) Map.empty) ClearCompleted)"
    by (intro reachable.step reachable.boot)
  show ?thesis
    using r reachable_world_ok [OF r] by simp
qed

text \<open>
  C16. Once an operation has written the board (the stored value is no longer the one the
  page found), reloading the page restores exactly the current state, provided
  \<^verbatim>\<open>JSON.parse\<close> reads back what \<^verbatim>\<open>JSON.stringify\<close> wrote.
\<close>

theorem reload_restores:
  assumes "reachable pg parse clock store0 w" and "storage w \<noteq> store0"
    and "json_codec parse (stringify pg) (state_json (state w))"
  shows "loadState parse clock' (storage w) = state w"
proof -
  from reachable_inv [OF assms(1)] assms(2)
  have "state_ok (state w)" and "storage w STORAGE_KEY = Some (stringify pg (state_json (state w)))"
    by auto
  with assms(3) show ?thesis
    by (intro loadState_stored [where raw = "stringify pg (state_json (state w))"])
       (simp_all add: json_codec_def)
qed

theorem reload_restores_witness:
  "loadState demo_parse (\<lambda>_. 0)
     (storage (run_action demo_page (init_world demo_page demo_parse (\<lambda>_. 0) Map.empty)
                (AddTask 1 (js_str ''a'') 2 (js_str ''deep'') (js_str ''Write spec''))))
   = \<lparr>tasks = [demo_task], extra = []\<rparr>"
proof -
  let ?boot = "init_world demo_page demo_parse (\<lambda>_. 0) Map.empty"
  let ?after = "run_action demo_page ?boot (AddTask 1 (js_str ''a'') 2 (js_str ''deep'') (js_str ''Write spec''))"
  have r: "reachable demo_page demo_parse (\<lambda>_. 0) Map.empty ?after"
    by (intro reachable.step reachable.boot)
  have trim: "trim (js_str ''Write spec'') = js_str ''Write spec''"
    by (simp add: trim_def is_js_space_def js_space_units_def js_str_simps)
  have s0: "state ?boot = empty_state"
    by (simp add: init_world_def loadState_def)
  have s: "state ?after = \<lparr>tasks = [demo_task], extra = []\<rparr>"
    using s0 trim
    by (simp add: addTask_def Let_def)
       (simp add: new_task_def uid_def int_to_dec_def nat_to_dec.simps tag_truthy_def
                  tags_get_def TAGS_def empty_state_def js_str_simps)
  have "storage ?after STORAGE_KEY \<noteq> None"
    using trim by (simp add: addTask_def saveState_def Let_def)
  then have ne: "storage ?after \<noteq> Map.empty"
    by auto
  have c: "json_codec demo_parse (stringify demo_page) (state_json (state ?after))"
    unfolding json_codec_def s by simp
  show ?thesis
    using reload_restores [OF r ne c, of "\<lambda>_. 0"] unfolding s .
qed

text \<open>
  C18. \<^verbatim>\<open>slice(0, 120)\<close> counts UTF-16 code units, not characters: a text whose
  120th and 121st code units are a surrogate pair (an emoji) is stored with the high
  surrogate alone at its end.
\<close>

theorem addTask_splits_surrogate:
  assumes "length pre = 119" and "\<forall>c \<in> set pre. \<not> is_js_space c"
    and "0xD800 \<le> hi" and "hi \<le> 0xDBFF" and "0xDC00 \<le> lo" and "lo \<le> 0xDFFF"
  shows "tasks (state (addTask pg t_id rnd t_created tg (pre @ [hi, lo]) w))
           = tasks (state w) @ [new_task t_id rnd t_created tg (pre @ [hi, lo])]
         \<and> task_text (new_task t_id rnd t_created tg (pre @ [hi, lo])) = pre @ [hi]"
proof -
  from assms(1) have "pre \<noteq> []" by auto
  moreover have "\<not> is_js_space lo"
    using order_trans [of "0xD800 :: 16 word" "0xDC00" lo] assms(5,6) by (simp add: surrogate_not_space)
  ultimately have "trim (pre @ [hi, lo]) = pre @ [hi, lo]"
    using assms(2) by (intro trim_id) (simp_all add: hd_append)
  with assms(1) show ?thesis
    by (simp add: addTask_def new_task_def Let_def)
qed

theorem addTask_splits_surrogate_witness:
  "last (task_text (hd (tasks (state (addTask demo_page 1 (js_str ''a'') 2 (js_str ''deep'')
      (replicate 119 0x61 @ [0xD83D, 0xDE00]) empty_world))))) = 0xD83D"
proof -
  have sp: "\<forall>c \<in> set (replicate 119 (0x61 :: 16 word)). \<not> is_js_space c"
    by (simp add: is_js_space_def js_space_units_def)
  show ?thesis
    using addTask_splits_surrogate [of "replicate 119 0x61" "0xD83D" "0xDE00" demo_page 1
                                       "js_str ''a''" 2 "js_str ''deep''" empty_world] sp
    by (simp add: empty_state_def)
qed

text \<open>
  C31. The id \<^verbatim>\<open>uid()\<close> builds reads back as the timestamp and the random part it
  was built from, so ids made at different \<^verbatim>\<open>Date.now()\<close> readings, or with different
  random parts, are different.
\<close>

theorem uid_roundtrip:
  "uid_parts (uid t_id rnd) = (t_id, rnd)
   \<and> (uid t_id rnd = uid t_id' rnd' \<longleftrightarrow> t_id = t_id' \<and> rnd = rnd')"
proof -
  have parts: "uid_parts (uid a r) = (a, r)" for a r
  proof -
    have no: "\<And>c. c \<in> set (int_to_dec a) \<Longrightarrow> c \<noteq> 0x5F"
      using int_to_dec_no_underscore [of a] by blast
    have tw: "takeWhile (\<lambda>c. c \<noteq> 0x5F) (int_to_dec a @ 0x5F # r) = int_to_dec a"
      using takeWhile_append2 [of "int_to_dec a" "\<lambda>c. c \<noteq> 0x5F", OF no] by simp
    have dw: "dropWhile (\<lambda>c. c \<noteq> 0x5F) (int_to_dec a @ 0x5F # r) = 0x5F # r"
      using dropWhile_append2 [of "int_to_dec a" "\<lambda>c. c \<noteq> 0x5F", OF no] by simp
    have ue: "uid a r = int_to_dec a @ 0x5F # r"
      by (simp add: uid_def js_str_simps)
    show ?thesis
      unfolding uid_parts_def ue tw dw by simp
  qed
  have "t_id = t_id' \<and> rnd = rnd'" if e: "uid t_id rnd = uid t_id' rnd'"
  proof -
    have "(t_id, rnd) = uid_parts (uid t_id' rnd')"
      using parts [of t_id rnd] e by simp
    then show ?thesis
      using parts [of t_id' rnd'] by simp
  qed
  with parts show ?thesis by blast
qed

end
