(* ===== verification/Ui.thy ===== *)
theory Ui
  imports Controller
begin

text \<open>
  The interaction layer (\<^verbatim>\<open>app.js\<close> lines 118--140 and 190--223): the listeners
  \<^verbatim>\<open>renderTask\<close> attaches to each card, the drop handler of each zone
  (\<^verbatim>\<open>setupDnD\<close>), and the form and button handlers. The page is a \<open>ui\<close>: the
  world of the controller, the form controls' values, and what the card elements carry.
  Every \<^verbatim>\<open>render()\<close> replaces all card elements, so a card is named by the render
  that made it (\<open>generation\<close>, counting the renders since the page load) and its
  position in the view (\<open>card_ids\<close>); the flag \<^verbatim>\<open>wrap.dataset.dragging\<close> of card
  \<open>k\<close> of the current render is \<open>dragging k\<close>, and a fresh card has it unset.
  An event on a card of an older render cannot happen (the element is detached); the
  model lets it change nothing. \<open>transfer\<close> is the \<^verbatim>\<open>text/plain\<close> item the last
  \<^verbatim>\<open>dragstart\<close> put on the drag data store. A \<^verbatim>\<open>drop\<close> carries the item of its own
  drag, which for a drag from outside the page is any string.
  The visual side (\<^verbatim>\<open>dragover\<close>, \<^verbatim>\<open>dragleave\<close>, the \<^verbatim>\<open>drag-over\<close> and
  \<^verbatim>\<open>dragging\<close> classes, \<^verbatim>\<open>effectAllowed\<close>, \<^verbatim>\<open>focus()\<close>) changes no state and
  is not modelled.
\<close>

record ui =
  board :: world
  generation :: nat
  dragging :: "nat \<Rightarrow> bool"
  transfer :: js_string
  tag_value :: js_string
  text_value :: js_string

datatype event =
    SelectTag js_string
  | TypeText js_string
  | Submit int js_string int
  | CardClick nat nat
  | DragStart nat nat
  | DragEnd nat nat
  | Drop js_string js_string
  | ClearClick

text \<open>The task ids of the card elements on the page, in document order.\<close>

definition card_ids :: "world \<Rightarrow> js_string list" where
  "card_ids w = (case shown w of None \<Rightarrow> [] | Some v \<Rightarrow> concat (map (\<lambda>(z, cs). map card_task cs) v))"

definition init_ui ::
  "page \<Rightarrow> (js_string \<Rightarrow> json option) \<Rightarrow> (nat \<Rightarrow> int) \<Rightarrow> (js_string \<Rightarrow> js_string option)
   \<Rightarrow> js_string \<Rightarrow> js_string \<Rightarrow> ui" where
  "init_ui pg parse clock store tag0 text0 =
     \<lparr>board = init_world pg parse clock store, generation = 0, dragging = (\<lambda>_. False),
      transfer = [], tag_value = tag0, text_value = text0\<rparr>"

text \<open>
  A handler's call of a controller operation; when the operation re-renders, the page has
  new card elements, none of them flagged.
\<close>

definition dispatch :: "page \<Rightarrow> action \<Rightarrow> ui \<Rightarrow> ui" where
  "dispatch pg a u =
     (if commits (board u) a
      then u\<lparr>board := run_action pg (board u) a, generation := Suc (generation u),
             dragging := (\<lambda>_. False)\<rparr>
      else u\<lparr>board := run_action pg (board u) a\<rparr>)"

fun ui_step :: "page \<Rightarrow> ui \<Rightarrow> event \<Rightarrow> ui" where
  "ui_step pg u (SelectTag g) = u\<lparr>tag_value := g\<rparr>"
| "ui_step pg u (TypeText s) = u\<lparr>text_value := s\<rparr>"
| "ui_step pg u (Submit t_id rnd t_created) =
     (dispatch pg (AddTask t_id rnd t_created (tag_value u) (text_value u)) u)\<lparr>text_value := []\<rparr>"
| "ui_step pg u (CardClick g k) =
     (if g = generation u \<and> k < length (card_ids (board u)) then
        (if dragging u k then u else dispatch pg (Toggle (card_ids (board u) ! k)) u)
      else u)"
| "ui_step pg u (DragStart g k) =
     (if g = generation u \<and> k < length (card_ids (board u))
      then u\<lparr>dragging := (dragging u)(k := True), transfer := card_ids (board u) ! k\<rparr>
      else u)"
| "ui_step pg u (DragEnd g k) =
     (if g = generation u \<and> k < length (card_ids (board u))
      then u\<lparr>dragging := (dragging u)(k := False)\<rparr> else u)"
| "ui_step pg u (Drop taskId z) =
     (if taskId \<noteq> [] \<and> z \<noteq> [] then dispatch pg (Move taskId z) u else u)"
| "ui_step pg u ClearClick = dispatch pg ClearCompleted u"

text \<open>The pages reachable from a load by a sequence of user events.\<close>

inductive ui_reachable ::
  "page \<Rightarrow> (js_string \<Rightarrow> json option) \<Rightarrow> (nat \<Rightarrow> int) \<Rightarrow> (js_string \<Rightarrow> js_string option)
   \<Rightarrow> js_string \<Rightarrow> js_string \<Rightarrow> ui \<Rightarrow> bool"
  for pg parse clock store0 tag0 text0 where
  boot: "ui_reachable pg parse clock store0 tag0 text0 (init_ui pg parse clock store0 tag0 text0)"
| step: "ui_reachable pg parse clock store0 tag0 text0 u
         \<Longrightarrow> ui_reachable pg parse clock store0 tag0 text0 (ui_step pg u e)"

text \<open>A sequence of user events, handled one after the other.\<close>

fun ui_run :: "page \<Rightarrow> ui \<Rightarrow> event list \<Rightarrow> ui" where
  "ui_run pg u [] = u"
| "ui_run pg u (e # es) = ui_run pg (ui_step pg u e) es"

text \<open>A page after loading an empty board and submitting one task, used by the witnesses.\<close>

definition demo_ui :: ui where
  "demo_ui = ui_step demo_page
     (init_ui demo_page (\<lambda>_. None) (\<lambda>_. 0) Map.empty (js_str ''deep'') (js_str ''Write spec''))
     (Submit 1 (js_str ''a'') 2)"

text \<open>A page loaded from a stored task whose id is the empty string.\<close>

definition empty_id_ui :: ui where
  "empty_id_ui = init_ui demo_page
     (\<lambda>_. Some (JObj [(js_str ''tasks'', JArr [JObj [(js_str ''id'', JStr [])]])]))
     (\<lambda>_. 0) (Map.empty(STORAGE_KEY \<mapsto> js_str ''{}'')) [] []"

subsection \<open>Helper facts\<close>

lemma dispatch_board [simp]: "board (dispatch pg a u) = run_action pg (board u) a"
  by (simp add: dispatch_def)

lemma run_action_no_commit: "\<not> commits w a \<Longrightarrow> run_action pg w a = w"
  using run_action_commits [of pg w a] by simp

lemma dispatch_no_commit:
  "\<not> commits (board u) a \<Longrightarrow> dispatch pg a u = u"
  by (simp add: dispatch_def run_action_no_commit)

lemma dispatch_dragging:
  "dragging (dispatch pg a u) j \<Longrightarrow> dragging u j \<and> run_action pg (board u) a = board u"
  by (cases "commits (board u) a") (simp_all add: dispatch_def run_action_no_commit)

lemma ui_step_board:
  "board (ui_step pg u e) = board u \<or> (\<exists>a. board (ui_step pg u e) = run_action pg (board u) a)"
  by (cases e) (auto simp del: run_action.simps)

lemma card_ids_tasks:
  assumes "reachable pg parse clock store0 w" and "i \<in> set (card_ids w)"
  shows "\<exists>t \<in> set (tasks (state w)). task_id t = i"
proof -
  from reachable_inv [OF assms(1)] have sh: "shown w = render (present pg) (state w)"
    by blast
  obtain v where v: "render (present pg) (state w) = Some v"
    using assms(2) sh by (cases "render (present pg) (state w)") (auto simp: card_ids_def)
  from assms(2) sh v have "i \<in> set (concat (map (\<lambda>(z, cs). map card_task cs) v))"
    by (simp only: card_ids_def option.case)
  then obtain z cs c where "(z, cs) \<in> set v" and "c \<in> set cs" and "card_task c = i"
    by (induction v) auto
  from render_card_task [OF v this(1,2)] this(3) show ?thesis
    by auto
qed

lemma ui_reachable_inv:
  assumes "ui_reachable pg parse clock store0 tag0 text0 u"
  shows "reachable pg parse clock store0 (board u)
         \<and> (\<forall>j. dragging u j \<longrightarrow> j < length (card_ids (board u)))"
  using assms
proof (induction rule: ui_reachable.induct)
  case boot
  show ?case by (simp add: init_ui_def reachable.boot)
next
  case (step u e)
  from step.IH ui_step_board [of pg u e]
  have "reachable pg parse clock store0 (board (ui_step pg u e))"
    by (auto intro: reachable.step)
  moreover have "\<forall>j. dragging (ui_step pg u e) j \<longrightarrow> j < length (card_ids (board (ui_step pg u e)))"
    using step.IH
    by (cases e) (auto dest: dispatch_dragging)
  ultimately show ?case by blast
qed

lemma ui_card_task:
  assumes "ui_reachable pg parse clock store0 tag0 text0 u" and "k < length (card_ids (board u))"
  obtains us t vs where "tasks (state (board u)) = us @ t # vs"
    and "task_id t = card_ids (board u) ! k" and "\<forall>x \<in> set us. task_id x \<noteq> task_id t"
proof -
  from ui_reachable_inv [OF assms(1)] have "reachable pg parse clock store0 (board u)"
    by blast
  from card_ids_tasks [OF this nth_mem [OF assms(2)]]
  have "\<exists>us t vs. tasks (state (board u)) = us @ t # vs \<and> task_id t = card_ids (board u) ! k
          \<and> (\<forall>x \<in> set us. \<not> task_id x = card_ids (board u) ! k)"
    by (rule split_list_first_prop)
  with that show ?thesis by auto
qed

lemma ui_run_append: "ui_run pg u (es @ es') = ui_run pg (ui_run pg u es) es'"
  by (induction es arbitrary: u) simp_all

lemma ui_reachable_run:
  "ui_reachable pg parse clock store0 tag0 text0 u \<Longrightarrow>
   ui_reachable pg parse clock store0 tag0 text0 (ui_run pg u es)"
  by (induction es arbitrary: u) (simp_all add: ui_reachable.step)

lemma reachable_card_ids_mset:
  assumes "reachable pg parse clock store0 w"
  shows "mset (card_ids w) = mset (map task_id (filter (\<lambda>t. present pg (zone t)) (tasks (state w))))"
proof -
  from reachable_inv [OF assms] have ok: "state_ok (state w)"
    and sh: "shown w = render (present pg) (state w)"
    by blast+
  from ok have tags: "\<forall>t \<in> set (tasks (state w)). tag_ok (tag t)"
    and zones: "\<forall>t \<in> set (tasks (state w)). zone t \<in> set ZONES"
    by (simp_all add: state_ok_def task_ok_def)
  from render_Some [OF tags] obtain v where v: "render (present pg) (state w) = Some v"
    by blast
  have d: "distinct (filter (present pg) ZONES)"
    by (simp add: ZONES_def)
  have "mset (card_ids w)
          = mset (map task_id (filter (\<lambda>t. zone t \<in> set (filter (present pg) ZONES)) (tasks (state w))))"
    using render_card_ids [OF v] mset_zone_cards [OF d, of "state w"] by (simp add: card_ids_def sh v)
  also have "filter (\<lambda>t. zone t \<in> set (filter (present pg) ZONES)) (tasks (state w))
               = filter (\<lambda>t. present pg (zone t)) (tasks (state w))"
    using zones by (auto intro: filter_cong)
  finally show ?thesis .
qed

lemma clear_one:
  assumes "ui_reachable pg parse clock store0 tag0 text0 u" and "\<forall>z \<in> set ZONES. present pg z"
    and "tasks (state (board u)) = t # ts"
  shows "\<exists>es. length es \<le> 3 \<and> length (tasks (state (board (ui_run pg u es)))) < length (tasks (state (board u)))"
proof (cases "completed t")
  case True
  have "tasks (state (board (ui_run pg u [ClearClick]))) = filter (\<lambda>x. \<not> completed x) ts"
    using assms(3) True by (simp add: clearCompleted_eq)
  then have "length (tasks (state (board (ui_run pg u [ClearClick])))) < length (tasks (state (board u)))"
    using assms(3) length_filter_le [of _ ts] by (simp add: le_imp_less_Suc)
  then show ?thesis
    by (intro exI [of _ "[ClearClick]"]) simp
next
  case False
  from ui_reachable_inv [OF assms(1)] have r: "reachable pg parse clock store0 (board u)"
    by blast
  from reachable_inv [OF r] assms(3) have "zone t \<in> set ZONES"
    by (simp add: state_ok_def task_ok_def)
  with assms(2,3) have "task_id t \<in># mset (card_ids (board u))"
    by (simp add: reachable_card_ids_mset [OF r])
  then obtain k where k: "k < length (card_ids (board u))" and ck: "card_ids (board u) ! k = task_id t"
    by (auto simp: in_set_conv_nth)
  let ?u1 = "ui_step pg u (DragEnd (generation u) k)"
  let ?u2 = "ui_step pg ?u1 (CardClick (generation u) k)"
  have u1: "board ?u1 = board u" "generation ?u1 = generation u" "\<not> dragging ?u1 k"
    using k by simp_all
  have "tasks (state (board ?u2)) = t\<lparr>completed := True\<rparr> # ts"
    using u1 k ck assms(3) False by (simp add: toggleCompleted_def)
  then have "tasks (state (board (ui_step pg ?u2 ClearClick))) = filter (\<lambda>x. \<not> completed x) ts"
    by (simp add: clearCompleted_eq)
  then have "length (tasks (state (board (ui_run pg u [DragEnd (generation u) k, CardClick (generation u) k, ClearClick]))))
               < length (tasks (state (board u)))"
    using assms(3) length_filter_le [of _ ts] by (simp add: le_imp_less_Suc)
  then show ?thesis
    by (intro exI [of _ "[DragEnd (generation u) k, CardClick (generation u) k, ClearClick]"]) simp
qed

lemma demo_ui_facts:
  "ui_reachable demo_page (\<lambda>_. None) (\<lambda>_. 0) Map.empty (js_str ''deep'') (js_str ''Write spec'') demo_ui"
  "tasks (state (board demo_ui)) = [new_task 1 (js_str ''a'') 2 (js_str ''deep'') (js_str ''Write spec'')]"
  "card_ids (board demo_ui) = [js_str ''1_a'']"
  "generation demo_ui = 1" "dragging demo_ui = (\<lambda>_. False)"
  unfolding demo_ui_def
  by (intro ui_reachable.step ui_reachable.boot)
     (simp_all add: demo_ui_def init_ui_def dispatch_def card_ids_def js_eval ZONES_def loadState_def
                    STORAGE_KEY_def TAGS_def tags_get_def tag_truthy_def object_prototype_keys_def)

lemma empty_id_ui_facts:
  "ui_reachable demo_page
     (\<lambda>_. Some (JObj [(js_str ''tasks'', JArr [JObj [(js_str ''id'', JStr [])]])]))
     (\<lambda>_. 0) (Map.empty(STORAGE_KEY \<mapsto> js_str ''{}'')) [] [] empty_id_ui"
  "card_ids (board empty_id_ui) = [[]]" "generation empty_id_ui = 0"
  unfolding empty_id_ui_def
  by (rule ui_reachable.boot)
     (simp_all add: init_ui_def init_world_def card_ids_def js_eval ZONES_def loadState_def
                    clean_tasks_def keep_entry_def clean_task_def STORAGE_KEY_def TAGS_def
                    tags_get_def tag_truthy_def object_prototype_keys_def)

subsection \<open>Properties of the handlers\<close>

text \<open>
  C21. On every page reachable from a load, a click on card \<open>k\<close> of the current render,
  while the card is not being dragged, toggles the completed flag of the first task with
  that card's id (a task of the board), saves, and re-renders: the cards are new and none
  is flagged.
\<close>

theorem card_click_toggles:
  assumes "ui_reachable pg parse clock store0 tag0 text0 u"
    and "k < length (card_ids (board u))" and "\<not> dragging u k"
  shows "\<exists>us t vs. tasks (state (board u)) = us @ t # vs \<and> task_id t = card_ids (board u) ! k
           \<and> (\<forall>x \<in> set us. task_id x \<noteq> task_id t)
           \<and> ui_step pg u (CardClick (generation u) k)
               = u\<lparr>board := commit pg ((state (board u))\<lparr>tasks := us @ t\<lparr>completed := \<not> completed t\<rparr> # vs\<rparr>)
                                  (board u),
                    generation := Suc (generation u), dragging := (\<lambda>_. False)\<rparr>"
proof -
  obtain us t vs where sp: "tasks (state (board u)) = us @ t # vs"
    and t: "task_id t = card_ids (board u) ! k" and us: "\<forall>x \<in> set us. task_id x \<noteq> task_id t"
    using ui_card_task [OF assms(1,2)] by blast
  have "ui_step pg u (CardClick (generation u) k)
          = u\<lparr>board := commit pg ((state (board u))\<lparr>tasks := us @ t\<lparr>completed := \<not> completed t\<rparr> # vs\<rparr>)
                                (board u),
               generation := Suc (generation u), dragging := (\<lambda>_. False)\<rparr>"
    using assms(2,3) sp t us
    by (simp add: dispatch_def toggleCompleted_def update_first_append)
  with sp t us show ?thesis by blast
qed

theorem card_click_toggles_witness:
  "map completed (tasks (state (board (ui_step demo_page demo_ui (CardClick 1 0))))) = [True]"
proof -
  have h: "0 < length (card_ids (board demo_ui))" "\<not> dragging demo_ui 0"
    by (simp_all add: demo_ui_facts)
  from card_click_toggles [OF demo_ui_facts(1) h]
  obtain us t vs where sp: "tasks (state (board demo_ui)) = us @ t # vs"
    and st: "ui_step demo_page demo_ui (CardClick (generation demo_ui) 0)
           = demo_ui\<lparr>board := commit demo_page ((state (board demo_ui))\<lparr>tasks := us @ t\<lparr>completed := \<not> completed t\<rparr> # vs\<rparr>)
                                (board demo_ui),
                      generation := Suc (generation demo_ui), dragging := (\<lambda>_. False)\<rparr>"
    by blast
  from sp have "us = [] \<and> vs = [] \<and> t = new_task 1 (js_str ''a'') 2 (js_str ''deep'') (js_str ''Write spec'')"
    by (simp add: demo_ui_facts(2) Cons_eq_append_conv append_eq_Cons_conv)
  with st show ?thesis
    by (simp add: demo_ui_facts(4) new_task_def)
qed

text \<open>
  C22. A click on a card whose \<^verbatim>\<open>dataset.dragging\<close> is \<^verbatim>\<open>"1"\<close> (between its
  \<^verbatim>\<open>dragstart\<close> and its \<^verbatim>\<open>dragend\<close>) is ignored: nothing changes.
\<close>

theorem click_while_dragging_ignored:
  assumes "dragging u k"
  shows "ui_step pg u (CardClick g k) = u"
  using assms by simp

theorem click_while_dragging_ignored_witness:
  "ui_step demo_page (ui_step demo_page demo_ui (DragStart 1 0)) (CardClick 1 0)
   = ui_step demo_page demo_ui (DragStart 1 0)"
proof -
  have "dragging (ui_step demo_page demo_ui (DragStart 1 0)) 0"
    by (simp add: demo_ui_facts)
  from click_while_dragging_ignored [OF this] show ?thesis .
qed

text \<open>
  C23. On every page reachable from a load, dragging card \<open>k\<close> of the current render
  (with a non-empty id) and dropping it on a zone of \<^verbatim>\<open>ZONES\<close> moves the first task with
  that id to the zone, leaves every other task as it was, saves and re-renders: no card of
  the new render is flagged, so the next click on a card toggles it.
\<close>

theorem drag_drop_moves:
  assumes "ui_reachable pg parse clock store0 tag0 text0 u"
    and "k < length (card_ids (board u))" and "card_ids (board u) ! k \<noteq> []" and "z \<in> set ZONES"
  shows "\<exists>us t vs. tasks (state (board u)) = us @ t # vs \<and> task_id t = card_ids (board u) ! k
           \<and> (\<forall>x \<in> set us. task_id x \<noteq> task_id t)
           \<and> (let u1 = ui_step pg u (DragStart (generation u) k);
                  u2 = ui_step pg u1 (Drop (transfer u1) z)
              in board u2 = commit pg ((state (board u))\<lparr>tasks := us @ t\<lparr>zone := z\<rparr> # vs\<rparr>) (board u)
                 \<and> generation u2 = Suc (generation u) \<and> (\<forall>j. \<not> dragging u2 j))"
proof -
  obtain us t vs where sp: "tasks (state (board u)) = us @ t # vs"
    and t: "task_id t = card_ids (board u) ! k" and us: "\<forall>x \<in> set us. task_id x \<noteq> task_id t"
    using ui_card_task [OF assms(1,2)] by blast
  from assms(4) have "z \<noteq> []"
    by (auto simp: ZONES_def)
  with assms(2-4) sp t us
  have "let u1 = ui_step pg u (DragStart (generation u) k);
            u2 = ui_step pg u1 (Drop (transfer u1) z)
        in board u2 = commit pg ((state (board u))\<lparr>tasks := us @ t\<lparr>zone := z\<rparr> # vs\<rparr>) (board u)
           \<and> generation u2 = Suc (generation u) \<and> (\<forall>j. \<not> dragging u2 j)"
    by (simp add: Let_def dispatch_def moveTask_def update_first_append)
  with sp t us show ?thesis by blast
qed

theorem drag_drop_moves_witness:
  "map zone (tasks (state (board (ui_step demo_page (ui_step demo_page demo_ui (DragStart 1 0))
                                    (Drop (js_str ''1_a'') (js_str ''do''))))))
   = [js_str ''do'']"
proof -
  have h: "0 < length (card_ids (board demo_ui))" "card_ids (board demo_ui) ! 0 \<noteq> []"
    "js_str ''do'' \<in> set ZONES"
    by (simp_all add: demo_ui_facts ZONES_def)
  from drag_drop_moves [OF demo_ui_facts(1) h]
  obtain us t vs where sp: "tasks (state (board demo_ui)) = us @ t # vs"
    and st: "let u1 = ui_step demo_page demo_ui (DragStart (generation demo_ui) 0);
                 u2 = ui_step demo_page u1 (Drop (transfer u1) (js_str ''do''))
             in board u2 = commit demo_page ((state (board demo_ui))\<lparr>tasks := us @ t\<lparr>zone := js_str ''do''\<rparr> # vs\<rparr>)
                                  (board demo_ui)
                \<and> generation u2 = Suc (generation demo_ui) \<and> (\<forall>j. \<not> dragging u2 j)"
    by blast
  from sp have "us = [] \<and> vs = []"
    by (simp add: demo_ui_facts(2) Cons_eq_append_conv append_eq_Cons_conv)
  with st show ?thesis
    by (simp add: Let_def demo_ui_facts)
qed

text \<open>
  C24. The drop handler tests \<^verbatim>\<open>taskId && zone\<close>, so a card whose task id is the
  empty string (which \<^verbatim>\<open>loadState\<close> accepts, \<^verbatim>\<open>typeof "" === "string"\<close>) can be
  dragged but never moved: its drop leaves the page as it was. A click still toggles it.
\<close>

theorem empty_id_not_movable:
  assumes "ui_reachable pg parse clock store0 tag0 text0 u"
    and "k < length (card_ids (board u))" and "card_ids (board u) ! k = []"
  shows "(\<exists>t \<in> set (tasks (state (board u))). task_id t = [])
         \<and> (let u1 = ui_step pg u (DragStart (generation u) k)
            in ui_step pg u1 (Drop (transfer u1) z) = u1)"
proof -
  obtain us t vs where sp: "tasks (state (board u)) = us @ t # vs"
    and t: "task_id t = card_ids (board u) ! k" and "\<forall>x \<in> set us. task_id x \<noteq> task_id t"
    using ui_card_task [OF assms(1,2)] by blast
  have "t \<in> set (tasks (state (board u)))" and "task_id t = []"
    using sp t assms(3) by simp_all
  then have "\<exists>t \<in> set (tasks (state (board u))). task_id t = []"
    by blast
  moreover have "ui_step pg (ui_step pg u (DragStart (generation u) k))
                   (Drop (transfer (ui_step pg u (DragStart (generation u) k))) z)
                 = ui_step pg u (DragStart (generation u) k)"
    using assms(2,3) by simp
  ultimately show ?thesis
    by (simp only: Let_def)
qed

theorem empty_id_not_movable_witness:
  "ui_step demo_page (ui_step demo_page empty_id_ui (DragStart 0 0)) (Drop [] (js_str ''do''))
   = ui_step demo_page empty_id_ui (DragStart 0 0)"
proof -
  have h: "0 < length (card_ids (board empty_id_ui))" "card_ids (board empty_id_ui) ! 0 = []"
    by (simp_all add: empty_id_ui_facts)
  from empty_id_not_movable [OF empty_id_ui_facts(1) h, of "js_str ''do''"]
  show ?thesis
    by (simp add: Let_def empty_id_ui_facts)
qed

text \<open>
  C25. Submitting the form adds a task exactly when the text field holds more than white
  space (the new task is the one \<^verbatim>\<open>addTask\<close> builds from the selected tag and the
  trimmed text), and in both cases clears the text field and keeps the selected tag.
\<close>

theorem submit_clears_text:
  "text_value (ui_step pg u (Submit t_id rnd t_created)) = []
   \<and> tag_value (ui_step pg u (Submit t_id rnd t_created)) = tag_value u
   \<and> tasks (state (board (ui_step pg u (Submit t_id rnd t_created))))
       = (if trim (text_value u) = [] then tasks (state (board u))
          else tasks (state (board u)) @ [new_task t_id rnd t_created (tag_value u) (trim (text_value u))])"
  by (simp add: dispatch_def addTask_def Let_def)

text \<open>
  C26. On every page reachable from a load by user events: the board is a reachable world
  (so C15 and C16 hold of it), every card on the page shows a task of the board, and only
  cards of the current render are flagged as dragged.
\<close>

theorem ui_reachable_ok:
  assumes "ui_reachable pg parse clock store0 tag0 text0 u"
  shows "reachable pg parse clock store0 (board u)
         \<and> set (card_ids (board u)) \<subseteq> task_id ` set (tasks (state (board u)))
         \<and> (\<forall>j. dragging u j \<longrightarrow> j < length (card_ids (board u)))"
proof -
  from ui_reachable_inv [OF assms] have r: "reachable pg parse clock store0 (board u)"
    and d: "\<forall>j. dragging u j \<longrightarrow> j < length (card_ids (board u))"
    by blast+
  have "set (card_ids (board u)) \<subseteq> task_id ` set (tasks (state (board u)))"
    using card_ids_tasks [OF r] by force
  with r d show ?thesis by blast
qed

theorem ui_reachable_ok_witness:
  "set (card_ids (board demo_ui)) \<subseteq> task_id ` set (tasks (state (board demo_ui)))"
  using ui_reachable_ok [OF demo_ui_facts(1)] by blast

text \<open>
  C33. On every page reachable from a load, the number of cards equals the number of tasks
  whose zone element is on the page (each such task has exactly one card), so it never
  exceeds the number of tasks.
\<close>

theorem card_count_bound:
  assumes "ui_reachable pg parse clock store0 tag0 text0 u"
  shows "length (card_ids (board u)) = length (filter (\<lambda>t. present pg (zone t)) (tasks (state (board u))))
         \<and> length (card_ids (board u)) \<le> length (tasks (state (board u)))"
proof -
  from ui_reachable_inv [OF assms] have "reachable pg parse clock store0 (board u)"
    by blast
  from reachable_card_ids_mset [OF this]
  have "length (card_ids (board u)) = length (filter (\<lambda>t. present pg (zone t)) (tasks (state (board u))))"
    by (metis length_map size_mset)
  then show ?thesis
    by simp
qed

theorem card_count_bound_witness:
  "length (card_ids (board demo_ui)) \<le> length (tasks (state (board demo_ui)))"
  using card_count_bound [OF demo_ui_facts(1)] by simp

text \<open>
  C34. From every page reachable from a load, when all five zone elements are on the page,
  the user can always empty the board: some finite sequence of events, at most three per
  task (end a pending drag on the first task's card, click it if it is not completed, press
  the clear button), leaves no task.
\<close>

theorem board_can_be_emptied:
  assumes "ui_reachable pg parse clock store0 tag0 text0 u" and "\<forall>z \<in> set ZONES. present pg z"
  shows "\<exists>es. length es \<le> 3 * length (tasks (state (board u)))
              \<and> tasks (state (board (ui_run pg u es))) = []"
  using assms(1)
proof (induction "length (tasks (state (board u)))" arbitrary: u rule: less_induct)
  case less
  show ?case
  proof (cases "tasks (state (board u))")
    case Nil
    then show ?thesis
      by (intro exI [of _ "[]"]) simp
  next
    case (Cons t ts)
    from clear_one [OF less.prems assms(2) Cons] obtain es where es: "length es \<le> 3"
      and lt: "length (tasks (state (board (ui_run pg u es)))) < length (tasks (state (board u)))"
      by blast
    from less.hyps [OF lt ui_reachable_run [OF less.prems]] obtain es' where
      es': "length es' \<le> 3 * length (tasks (state (board (ui_run pg u es))))"
      and e: "tasks (state (board (ui_run pg (ui_run pg u es) es'))) = []"
      by blast
    from es es' lt have "length (es @ es') \<le> 3 * length (tasks (state (board u)))"
      by simp
    with e show ?thesis
      by (intro exI [of _ "es @ es'"]) (simp add: ui_run_append)
  qed
qed

theorem board_can_be_emptied_witness:
  "\<exists>es. tasks (state (board (ui_run demo_page demo_ui es))) = []"
proof -
  have "\<forall>z \<in> set ZONES. present demo_page z"
    by simp
  from board_can_be_emptied [OF demo_ui_facts(1) this] show ?thesis
    by blast
qed

end
