(* ===== verification/Abstract_Board.thy ===== *)
theory Abstract_Board
  imports Controller
begin

text \<open>
  The board as the specification describes it (sections 3 and 4): zones and tags are the
  five-element enumerations \<open>zone_t\<close> and \<open>tag_t\<close>, a task (\<open>atask\<close>) carries them
  instead of strings and \<open>json\<close> values, and the four operations and the per-zone view
  are the list functions the specification states (\<open>a_add\<close>, \<open>a_toggle\<close>,
  \<open>a_move\<close>, \<open>a_clear\<close>, \<open>a_view\<close>, \<open>a_render\<close>); \<open>a_run\<close> interprets the
  controller's \<open>action\<close> datatype, the interface both layers share. The specification's
  toggle and move change the task with the given id, which is one task because ids are
  unique; the code changes the first task with the id (\<^verbatim>\<open>find\<close>).
  \<open>abs_task\<close> reads a concrete task as an abstract one, and fails (\<open>None\<close>) for a zone
  outside \<^verbatim>\<open>ZONES\<close> or a tag that is not one of the five names.
\<close>

datatype zone_t = Unassigned | Do | Schedule | Delegate | Eliminate

datatype tag_t = Light | Deep | Open | Learning | Planning

definition zones_list :: "zone_t list" where
  "zones_list = [Unassigned, Do, Schedule, Delegate, Eliminate]"

definition tags_list :: "tag_t list" where
  "tags_list = [Light, Deep, Open, Learning, Planning]"

fun zone_name :: "zone_t \<Rightarrow> js_string" where
  "zone_name Unassigned = js_str ''unassigned''"
| "zone_name Do = js_str ''do''"
| "zone_name Schedule = js_str ''schedule''"
| "zone_name Delegate = js_str ''delegate''"
| "zone_name Eliminate = js_str ''eliminate''"

fun tag_name :: "tag_t \<Rightarrow> js_string" where
  "tag_name Light = js_str ''light''"
| "tag_name Deep = js_str ''deep''"
| "tag_name Open = js_str ''open''"
| "tag_name Learning = js_str ''learning''"
| "tag_name Planning = js_str ''planning''"

text \<open>The badge of a tag: its label and style class (the entries of \<^verbatim>\<open>TAGS\<close>).\<close>

fun tag_badge :: "tag_t \<Rightarrow> js_string \<times> js_string" where
  "tag_badge Light = (js_str ''Light Build'', js_str ''tag-light'')"
| "tag_badge Deep = (js_str ''Deep Build'', js_str ''tag-deep'')"
| "tag_badge Open = (js_str ''Open'', js_str ''tag-open'')"
| "tag_badge Learning = (js_str ''Learning'', js_str ''tag-learning'')"
| "tag_badge Planning = (js_str ''Planning'', js_str ''tag-planning'')"

definition zone_of :: "js_string \<Rightarrow> zone_t option" where
  "zone_of s = find (\<lambda>z. zone_name z = s) zones_list"

definition tag_of :: "js_string \<Rightarrow> tag_t option" where
  "tag_of s = find (\<lambda>g. tag_name g = s) tags_list"

record atask =
  a_id :: js_string
  a_text :: js_string
  a_tag :: tag_t
  a_zone :: zone_t
  a_completed :: bool
  a_created :: int

type_synonym aboard = "atask list"

subsection \<open>The specification's operations\<close>

definition a_add :: "js_string \<Rightarrow> int \<Rightarrow> js_string \<Rightarrow> js_string \<Rightarrow> aboard \<Rightarrow> aboard" where
  "a_add i created tg s b =
     (let c = trim s in
      if c = [] then b
      else b @ [\<lparr>a_id = i, a_text = take 120 c,
                 a_tag = (case tag_of tg of Some g \<Rightarrow> g | None \<Rightarrow> Light),
                 a_zone = Unassigned, a_completed = False, a_created = created\<rparr>])"

definition a_toggle :: "js_string \<Rightarrow> aboard \<Rightarrow> aboard" where
  "a_toggle i b = map (\<lambda>t. if a_id t = i then t\<lparr>a_completed := \<not> a_completed t\<rparr> else t) b"

definition a_move :: "js_string \<Rightarrow> js_string \<Rightarrow> aboard \<Rightarrow> aboard" where
  "a_move i s b =
     (case zone_of s of
        None \<Rightarrow> b
      | Some z \<Rightarrow> map (\<lambda>t. if a_id t = i then t\<lparr>a_zone := z\<rparr> else t) b)"

definition a_clear :: "aboard \<Rightarrow> aboard" where
  "a_clear b = filter (\<lambda>t. \<not> a_completed t) b"

fun a_run :: "aboard \<Rightarrow> action \<Rightarrow> aboard" where
  "a_run b (AddTask t_id rnd t_created tg s) = a_add (uid t_id rnd) t_created tg s b"
| "a_run b (Toggle i) = a_toggle i b"
| "a_run b (Move i z) = a_move i z b"
| "a_run b ClearCompleted = a_clear b"

definition a_view :: "aboard \<Rightarrow> zone_t \<Rightarrow> aboard" where
  "a_view b z = sort_key a_created (filter (\<lambda>t. a_zone t = z) b)"

definition a_card :: "atask \<Rightarrow> card" where
  "a_card t =
     \<lparr>card_task = a_id t,
      card_class = js_str ''task'' @ (if a_completed t then js_str '' completed'' else []),
      badge_class = js_str ''badge '' @ snd (tag_badge (a_tag t)),
      badge_label = fst (tag_badge (a_tag t)),
      card_text = a_text t\<rparr>"

definition a_render :: "(js_string \<Rightarrow> bool) \<Rightarrow> aboard \<Rightarrow> view" where
  "a_render has_zone b =
     map (\<lambda>z. (zone_name z, map a_card (a_view b z))) (filter (\<lambda>z. has_zone (zone_name z)) zones_list)"

subsection \<open>Abstraction of the concrete board\<close>

definition abs_task :: "task \<Rightarrow> atask option" where
  "abs_task t =
     (case (zone_of (zone t), tag t) of
        (Some z, JStr k) \<Rightarrow>
          map_option (\<lambda>g. \<lparr>a_id = task_id t, a_text = task_text t, a_tag = g, a_zone = z,
                             a_completed = completed t, a_created = createdAt t\<rparr>) (tag_of k)
      | _ \<Rightarrow> None)"

definition abs_board :: "task list \<Rightarrow> aboard option" where
  "abs_board ts = those (map abs_task ts)"

text \<open>
  The specification admits every tag value the \<^verbatim>\<open>TAGS\<close> test of \<^verbatim>\<open>addTask\<close>
  passes except the inherited keys; \<open>spec_action\<close> says an action stays inside that.
\<close>

fun spec_action :: "action \<Rightarrow> bool" where
  "spec_action (AddTask t_id rnd t_created tg s) = (tags_get tg \<noteq> ProtoProp)"
| "spec_action a = True"

text \<open>
  The specification's id invariant needs \<^verbatim>\<open>uid()\<close> to return an id no task has;
  \<open>fresh_action\<close> says an action's new id is fresh.
\<close>

fun fresh_action :: "world \<Rightarrow> action \<Rightarrow> bool" where
  "fresh_action w (AddTask t_id rnd t_created tg s) = (uid t_id rnd \<notin> task_id ` set (tasks (state w)))"
| "fresh_action w a = True"

text \<open>The abstract counterpart of the controller's \<open>demo_task\<close>, used by the witnesses.\<close>

abbreviation demo_atask :: atask where
  "demo_atask \<equiv> \<lparr>a_id = js_str ''1_a'', a_text = js_str ''Write spec'', a_tag = Deep,
                  a_zone = Unassigned, a_completed = False, a_created = 2\<rparr>"

subsection \<open>Helper facts\<close>

lemma zone_name_eq_iff [simp]: "zone_name z = zone_name z' \<longleftrightarrow> z = z'"
  by (cases z; cases z') simp_all

lemma zone_of_name [simp]: "zone_of (zone_name z) = Some z"
  by (cases z) (simp_all add: zone_of_def zones_list_def)

lemma zone_of_Some: "zone_of s = Some z \<Longrightarrow> zone_name z = s"
  by (auto simp: zone_of_def find_Some_iff)

lemma tag_of_name [simp]: "tag_of (tag_name g) = Some g"
  by (cases g) (simp_all add: tag_of_def tags_list_def)

lemma tag_of_Some: "tag_of s = Some g \<Longrightarrow> tag_name g = s"
  by (auto simp: tag_of_def find_Some_iff)

lemma zone_name_in_ZONES [simp]: "zone_name z \<in> set ZONES"
  by (cases z) (simp_all add: ZONES_def)

lemma ZONES_names: "ZONES = map zone_name zones_list"
  by (simp add: ZONES_def zones_list_def)

lemma zone_of_None_iff: "zone_of s = None \<longleftrightarrow> s \<notin> set ZONES"
  by (auto simp: zone_of_def find_None_iff ZONES_names)

lemma tags_get_name: "tags_get (tag_name g) = TagMeta (fst (tag_badge g)) (snd (tag_badge g))"
  by (cases g) (simp_all add: tags_get_def TAGS_def)

lemma tag_of_TagMeta: "tags_get k = TagMeta l c \<Longrightarrow> tag_of k \<noteq> None"
  by (auto simp: tags_get_def TAGS_def tag_of_def tags_list_def split: option.splits if_splits)

lemma tag_named_iff: "tag_named j \<longleftrightarrow> (\<exists>g. j = JStr (tag_name g))"
proof
  assume "tag_named j"
  then show "\<exists>g. j = JStr (tag_name g)"
    by (auto simp: tag_named_def TAGS_def intro: exI [of _ Light] exI [of _ Deep] exI [of _ Open]
                   exI [of _ Learning] exI [of _ Planning])
next
  assume "\<exists>g. j = JStr (tag_name g)"
  then obtain g where "j = JStr (tag_name g)" by blast
  then show "tag_named j"
    by (cases g) (simp_all add: tag_named_def TAGS_def)
qed

lemma abs_task_SomeD:
  assumes "abs_task t = Some a"
  shows "a_id a = task_id t \<and> a_text a = task_text t \<and> a_completed a = completed t
         \<and> a_created a = createdAt t \<and> zone t = zone_name (a_zone a) \<and> tag t = JStr (tag_name (a_tag a))"
  using assms
  by (auto simp: abs_task_def split: option.splits json.splits dest: zone_of_Some tag_of_Some)

lemma abs_task_eq:
  "zone t = zone_name z \<Longrightarrow> tag t = JStr (tag_name g) \<Longrightarrow>
   abs_task t = Some \<lparr>a_id = task_id t, a_text = task_text t, a_tag = g, a_zone = z,
                      a_completed = completed t, a_created = createdAt t\<rparr>"
  by (simp add: abs_task_def)

lemma abs_task_completed:
  "abs_task (t\<lparr>completed := c\<rparr>) = map_option (\<lambda>a. a\<lparr>a_completed := c\<rparr>) (abs_task t)"
  by (auto simp: abs_task_def option.map_comp comp_def split: option.splits json.splits)

lemma abs_task_zone:
  "abs_task t = Some a \<Longrightarrow> abs_task (t\<lparr>zone := zone_name z\<rparr>) = Some (a\<lparr>a_zone := z\<rparr>)"
  by (auto simp: abs_task_def split: option.splits json.splits)

lemma abs_board_Some_iff:
  "abs_board ts = Some b \<longleftrightarrow> (\<forall>t \<in> set ts. abs_task t \<noteq> None) \<and> b = map (\<lambda>t. the (abs_task t)) ts"
  by (simp add: abs_board_def those_map_Some_conv)

lemma abs_board_fields:
  assumes "abs_board ts = Some b"
  shows "b = map (\<lambda>t. the (abs_task t)) ts"
    and "\<forall>t \<in> set ts. abs_task t = Some (the (abs_task t))"
    and "\<forall>t \<in> set ts. a_id (the (abs_task t)) = task_id t \<and> a_completed (the (abs_task t)) = completed t
           \<and> a_created (the (abs_task t)) = createdAt t \<and> zone t = zone_name (a_zone (the (abs_task t)))"
proof -
  from assms show b: "b = map (\<lambda>t. the (abs_task t)) ts"
    and some: "\<forall>t \<in> set ts. abs_task t = Some (the (abs_task t))"
    by (auto simp: abs_board_Some_iff)
  show "\<forall>t \<in> set ts. a_id (the (abs_task t)) = task_id t \<and> a_completed (the (abs_task t)) = completed t
           \<and> a_created (the (abs_task t)) = createdAt t \<and> zone t = zone_name (a_zone (the (abs_task t)))"
  proof
    fix t
    assume "t \<in> set ts"
    with some have "abs_task t = Some (the (abs_task t))" by blast
    from abs_task_SomeD [OF this] show "a_id (the (abs_task t)) = task_id t \<and> a_completed (the (abs_task t)) = completed t
           \<and> a_created (the (abs_task t)) = createdAt t \<and> zone t = zone_name (a_zone (the (abs_task t)))"
      by simp
  qed
qed

lemma abs_board_ids: "abs_board ts = Some b \<Longrightarrow> map a_id b = map task_id ts"
  using abs_board_fields [of ts b] by simp

lemma abs_board_map:
  assumes "abs_board ts = Some b"
    and "\<forall>t a. abs_task t = Some a \<longrightarrow> abs_task (F t) = Some (G a)"
  shows "abs_board (map F ts) = Some (map G b)"
  using assms by (auto simp: abs_board_Some_iff)

lemma abs_board_filter:
  assumes "abs_board ts = Some b"
    and "\<forall>t a. abs_task t = Some a \<longrightarrow> P t = Q a"
  shows "abs_board (filter P ts) = Some (filter Q b)"
proof -
  from assms(1) have ok: "\<forall>t \<in> set ts. abs_task t \<noteq> None" and b: "b = map (\<lambda>t. the (abs_task t)) ts"
    by (simp_all add: abs_board_Some_iff)
  have "filter P ts = filter (\<lambda>t. Q (the (abs_task t))) ts"
    using ok assms(2) by (intro filter_cong) auto
  with ok b show ?thesis
    by (simp add: abs_board_Some_iff filter_map comp_def)
qed

lemma abs_board_append:
  "abs_board ts = Some b \<Longrightarrow> abs_task t = Some a \<Longrightarrow> abs_board (ts @ [t]) = Some (b @ [a])"
  by (simp add: abs_board_Some_iff)

lemma abs_new_task:
  assumes "tags_get tg \<noteq> ProtoProp"
  shows "abs_task (new_task t_id rnd t_created tg c)
           = Some \<lparr>a_id = uid t_id rnd, a_text = take 120 c,
                   a_tag = (case tag_of tg of Some g \<Rightarrow> g | None \<Rightarrow> Light),
                   a_zone = Unassigned, a_completed = False, a_created = t_created\<rparr>"
proof (cases "tag_of tg")
  case None
  with assms have "\<not> tag_truthy tg"
    by (cases "tags_get tg") (auto simp: tag_truthy_def dest: tag_of_TagMeta)
  then have "tag (new_task t_id rnd t_created tg c) = JStr (tag_name Light)"
    by (simp add: new_task_def)
  from abs_task_eq [OF _ this, of Unassigned] None show ?thesis
    by (simp add: new_task_def)
next
  case (Some g)
  then have "tag_name g = tg"
    by (rule tag_of_Some)
  then have "tag (new_task t_id rnd t_created tg c) = JStr (tag_name g)"
    by (auto simp: new_task_def tag_truthy_def tags_get_name)
  from abs_task_eq [OF _ this, of Unassigned] Some show ?thesis
    by (simp add: new_task_def)
qed

lemma renderTask_abs: "abs_task t = Some a \<Longrightarrow> renderTask t = Some (a_card a)"
  by (drule abs_task_SomeD)
     (simp add: renderTask_def tag_meta_def tags_get_name a_card_def Let_def)

lemma getTasksInZone_abs:
  assumes "abs_board (tasks st) = Some b"
  shows "those (map renderTask (getTasksInZone st (zone_name z))) = Some (map a_card (a_view b z))"
proof -
  let ?h = "\<lambda>t. the (abs_task t)"
  note f = abs_board_fields [OF assms]
  let ?ts = "filter (\<lambda>t. zone t = zone_name z) (tasks st)"
  have sort: "map ?h (sort_key createdAt ?ts) = sort_key a_created (map ?h ?ts)"
    using f(3) by (intro map_sort_key) auto
  have "?ts = filter (\<lambda>t. a_zone (?h t) = z) (tasks st)"
    using f(3) by (intro filter_cong) auto
  then have filt: "map ?h ?ts = filter (\<lambda>a. a_zone a = z) b"
    by (simp add: f(1) filter_map comp_def)
  have "\<forall>t \<in> set (sort_key createdAt ?ts). renderTask t = Some (a_card (?h t))"
    using f(2) by (auto intro: renderTask_abs)
  then have "those (map renderTask (sort_key createdAt ?ts)) = Some (map (\<lambda>t. a_card (?h t)) (sort_key createdAt ?ts))"
    by (rule those_map_total)
  also have "map (\<lambda>t. a_card (?h t)) (sort_key createdAt ?ts) = map a_card (map ?h (sort_key createdAt ?ts))"
    by simp
  also have "\<dots> = map a_card (a_view b z)"
    using sort filt by (simp only: a_view_def)
  finally show ?thesis
    by (simp add: getTasksInZone_def js_sort_createdAt)
qed

lemma abs_board_id_set: "abs_board ts = Some b \<Longrightarrow> a_id ` set b = task_id ` set ts"
  by (metis abs_board_ids list.set_map)

lemma abs_board_absent:
  assumes "abs_board ts = Some b" and "i \<notin> task_id ` set ts"
  shows "map (\<lambda>a. if a_id a = i then F a else a) b = b"
proof -
  from abs_board_id_set [OF assms(1)] assms(2) have "\<forall>a \<in> set b. a_id a \<noteq> i"
    by blast
  then show ?thesis
    by (auto intro!: map_idI)
qed

lemma abs_task_defined:
  "abs_task t \<noteq> None \<longleftrightarrow> zone t \<in> set ZONES \<and> tag_named (tag t)"
proof
  assume "abs_task t \<noteq> None"
  then obtain a where "abs_task t = Some a" by blast
  from abs_task_SomeD [OF this] show "zone t \<in> set ZONES \<and> tag_named (tag t)"
    by (auto simp: tag_named_iff)
next
  assume a: "zone t \<in> set ZONES \<and> tag_named (tag t)"
  then obtain z where "zone_of (zone t) = Some z"
    by (cases "zone_of (zone t)") (auto simp: zone_of_None_iff)
  then have "zone t = zone_name z"
    by (simp add: zone_of_Some)
  moreover from a obtain g where "tag t = JStr (tag_name g)"
    by (auto simp: tag_named_iff)
  ultimately show "abs_task t \<noteq> None"
    by (simp add: abs_task_eq)
qed

lemma abs_board_defined_iff:
  "abs_board ts \<noteq> None \<longleftrightarrow> (\<forall>t \<in> set ts. zone t \<in> set ZONES \<and> tag_named (tag t))"
  using abs_task_defined by (auto simp: abs_board_def those_map_None_iff)

lemma abs_demo_task: "abs_board [demo_task] = Some [demo_atask]"
proof -
  have "abs_task demo_task = Some demo_atask"
    using abs_task_eq [of demo_task Unassigned Deep] by simp
  then show ?thesis by (simp add: abs_board_def)
qed

subsection \<open>Refinement\<close>

text \<open>
  C27. The controller implements the specification's operations: on a board that has an
  abstract reading and unique ids, every operation (with a tag argument that is not an
  inherited key of \<^verbatim>\<open>Object.prototype\<close>) produces the board whose reading is the
  specification's result: add (trim, clamp to 120, tag or \<^verbatim>\<open>light\<close>, zone
  \<^verbatim>\<open>unassigned\<close>), toggle and move of the task with the id, no-op for an unknown id or
  zone, and removal of the completed tasks.
\<close>

theorem run_action_refines:
  assumes "abs_board (tasks (state w)) = Some b" and "distinct (map task_id (tasks (state w)))"
    and "spec_action a"
  shows "abs_board (tasks (state (run_action pg w a))) = Some (a_run b a)"
proof (cases a)
  case (AddTask t_id rnd t_created tg s)
  show ?thesis
  proof (cases "trim s = []")
    case True
    with AddTask assms(1) show ?thesis
      by (simp add: addTask_def a_add_def Let_def)
  next
    case False
    from AddTask assms(3) have "tags_get tg \<noteq> ProtoProp"
      by simp
    from abs_board_append [OF assms(1) abs_new_task [OF this]] False AddTask show ?thesis
      by (simp add: addTask_def a_add_def Let_def)
  qed
next
  case (Toggle i)
  show ?thesis
  proof (cases "i \<in> task_id ` set (tasks (state w))")
    case True
    have "abs_board (map (\<lambda>t. if task_id t = i then t\<lparr>completed := \<not> completed t\<rparr> else t) (tasks (state w)))
            = Some (a_toggle i b)"
      unfolding a_toggle_def
      by (rule abs_board_map [OF assms(1)]) (auto simp: abs_task_completed dest: abs_task_SomeD)
    with True Toggle assms(2) show ?thesis
      by (simp add: toggleCompleted_def update_first_distinct)
  next
    case False
    with abs_board_absent [OF assms(1)] have "a_toggle i b = b"
      by (simp add: a_toggle_def)
    with False Toggle assms(2) show ?thesis
      using assms(1) by (simp add: toggleCompleted_def update_first_distinct)
  qed
next
  case (Move i s)
  show ?thesis
  proof (cases "zone_of s")
    case None
    then have "s \<notin> set ZONES"
      by (simp add: zone_of_None_iff)
    with None Move assms(1) show ?thesis
      by (simp add: moveTask_def a_move_def split: option.split)
  next
    case (Some z)
    then have s: "s = zone_name z"
      by (simp add: zone_of_Some)
    show ?thesis
    proof (cases "i \<in> task_id ` set (tasks (state w))")
      case True
      have "abs_board (map (\<lambda>t. if task_id t = i then t\<lparr>zone := zone_name z\<rparr> else t) (tasks (state w)))
              = Some (map (\<lambda>t. if a_id t = i then t\<lparr>a_zone := z\<rparr> else t) b)"
        by (rule abs_board_map [OF assms(1)]) (auto simp: abs_task_zone dest: abs_task_SomeD)
      with True Move Some s assms(2) show ?thesis
        by (simp add: moveTask_def a_move_def update_first_distinct)
    next
      case False
      with abs_board_absent [OF assms(1)] have "map (\<lambda>t. if a_id t = i then t\<lparr>a_zone := z\<rparr> else t) b = b"
        by simp
      with False Move Some s assms show ?thesis
        by (simp add: moveTask_def a_move_def update_first_distinct)
    qed
  qed
next
  case ClearCompleted
  have "abs_board (filter (\<lambda>t. \<not> completed t) (tasks (state w))) = Some (a_clear b)"
    unfolding a_clear_def
    by (rule abs_board_filter [OF assms(1)]) (auto dest: abs_task_SomeD)
  with ClearCompleted show ?thesis
    by (auto simp: clearCompleted_eq filter_id_conv)
qed

theorem run_action_refines_witness:
  "abs_board (tasks (state (run_action demo_page demo_world (Toggle (js_str ''1_a'')))))
     = Some [demo_atask\<lparr>a_completed := True\<rparr>]"
proof -
  have h: "abs_board (tasks (state demo_world)) = Some [demo_atask]"
    "distinct (map task_id (tasks (state demo_world)))" "spec_action (Toggle (js_str ''1_a''))"
    by (simp_all add: abs_demo_task)
  from run_action_refines [OF h, of demo_page] show ?thesis
    by (simp add: a_toggle_def)
qed

text \<open>
  C28. The renderer implements the specification's view: on a board with an abstract
  reading, \<^verbatim>\<open>render()\<close> shows, for each zone on the page in the fixed order, the cards
  of that zone's tasks sorted stably by \<^verbatim>\<open>createdAt\<close>, each card carrying the id, the
  tag's label and class, the text, and the completed mark.
\<close>

theorem render_refines:
  assumes "abs_board (tasks st) = Some b"
  shows "render has_zone st = Some (a_render has_zone b)"
  unfolding render_def a_render_def ZONES_names filter_map map_map comp_def
  by (rule those_map_total) (simp add: getTasksInZone_abs [OF assms])

theorem render_refines_witness:
  "render (\<lambda>_. True) (state demo_world) = Some (a_render (\<lambda>_. True) [demo_atask])"
  using render_refines [of "state demo_world" "[demo_atask]" "\<lambda>_. True"] abs_demo_task
  by simp

text \<open>
  C29. Every operation keeps the board inside the specification's invariant on zones and
  tags (every zone one of \<^verbatim>\<open>ZONES\<close>, every tag one of the five names), for an
  \<^verbatim>\<open>addTask\<close> tag argument that is not an inherited key: a board with an abstract
  reading keeps one. Unlike C27 this needs no uniqueness of ids.
\<close>

theorem run_action_keeps_spec_invariant:
  assumes "abs_board (tasks (state w)) \<noteq> None" and "spec_action a"
  shows "abs_board (tasks (state (run_action pg w a))) \<noteq> None"
proof -
  let ?P = "\<lambda>t. zone t \<in> set ZONES \<and> tag_named (tag t)"
  from assms(1) abs_board_defined_iff have all: "\<forall>t \<in> set (tasks (state w)). ?P t"
    by blast
  show ?thesis
  proof (cases a)
    case (AddTask t_id rnd t_created tg s)
    from assms(1) obtain b where b: "abs_board (tasks (state w)) = Some b"
      by blast
    from AddTask assms(2) have "tags_get tg \<noteq> ProtoProp"
      by simp
    from abs_board_append [OF b abs_new_task [OF this]] b AddTask show ?thesis
      by (simp add: addTask_def Let_def)
  next
    case (Toggle i)
    show ?thesis
    proof (cases "update_first (\<lambda>x. task_id x = i) (\<lambda>t. t\<lparr>completed := \<not> completed t\<rparr>) (tasks (state w))")
      case None
      with Toggle assms(1) show ?thesis
        by (simp add: toggleCompleted_def)
    next
      case (Some ts)
      have "\<forall>t. ?P t \<longrightarrow> ?P (t\<lparr>completed := \<not> completed t\<rparr>)"
        by simp
      from update_first_all [OF Some all this] have "\<forall>t \<in> set ts. ?P t" .
      with Some Toggle abs_board_defined_iff [of ts] show ?thesis
        by (simp add: toggleCompleted_def)
    qed
  next
    case (Move i z)
    show ?thesis
    proof (cases "z \<in> set ZONES")
      case True
      show ?thesis
      proof (cases "update_first (\<lambda>x. task_id x = i) (\<lambda>t. t\<lparr>zone := z\<rparr>) (tasks (state w))")
        case None
        with Move assms(1) show ?thesis
          by (simp add: moveTask_def)
      next
        case (Some ts)
        have "\<forall>t. ?P t \<longrightarrow> ?P (t\<lparr>zone := z\<rparr>)"
          using True by simp
        from update_first_all [OF Some all this] have "\<forall>t \<in> set ts. ?P t" .
        with Some Move True abs_board_defined_iff [of ts] show ?thesis
          by (simp add: moveTask_def)
      qed
    next
      case False
      with Move assms(1) show ?thesis
        by (simp add: moveTask_def split: option.split)
    qed
  next
    case ClearCompleted
    from all have "\<forall>t \<in> set (filter (\<lambda>t. \<not> completed t) (tasks (state w))). ?P t"
      by simp
    with ClearCompleted assms(1) abs_board_defined_iff [of "filter (\<lambda>t. \<not> completed t) (tasks (state w))"]
    show ?thesis
      by (simp add: clearCompleted_eq)
  qed
qed

theorem run_action_keeps_spec_invariant_witness:
  "abs_board (tasks (state (run_action demo_page demo_world (Move (js_str ''1_a'') (js_str ''do''))))) \<noteq> None"
proof -
  have "abs_board (tasks (state demo_world)) \<noteq> None" "spec_action (Move (js_str ''1_a'') (js_str ''do''))"
    by (simp_all add: abs_demo_task)
  from run_action_keeps_spec_invariant [OF this] show ?thesis .
qed

text \<open>
  C30. Every operation keeps the ids of the collection unique, provided the id
  \<^verbatim>\<open>uid()\<close> returns for a new task is not already taken.
\<close>

theorem run_action_distinct:
  assumes "distinct (map task_id (tasks (state w)))" and "fresh_action w a"
  shows "distinct (map task_id (tasks (state (run_action pg w a))))"
proof (cases a)
  case (AddTask t_id rnd t_created tg s)
  with assms show ?thesis
    by (simp add: addTask_def Let_def new_task_def)
next
  case (Toggle i)
  with assms(1) show ?thesis
    by (simp add: toggleCompleted_def map_update_first split: option.split)
next
  case (Move i z)
  with assms(1) show ?thesis
    by (simp add: moveTask_def map_update_first split: option.split)
next
  case ClearCompleted
  with assms(1) show ?thesis
    by (simp add: clearCompleted_eq distinct_map_filter)
qed

theorem run_action_distinct_witness:
  "distinct (map task_id (tasks (state (run_action demo_page demo_world
      (AddTask 3 (js_str ''b'') 4 (js_str ''deep'') (js_str ''Review''))))))"
proof -
  have h: "distinct (map task_id (tasks (state demo_world)))"
    "fresh_action demo_world (AddTask 3 (js_str ''b'') 4 (js_str ''deep'') (js_str ''Review''))"
    by (simp_all add: uid_def int_to_dec_def nat_to_dec.simps js_str_simps)
  from run_action_distinct [OF h] show ?thesis .
qed

end
