(* ===== verification/Spec2Isabelle.thy ===== *)
theory Spec2Isabelle
  imports Ui Abstract_Board
begin

text \<open>
  \<^bold>\<open>A verification model of the Eisenhower scratchpad\<close> (\<^verbatim>\<open>src/docs/app/app.js\<close>).

  \<^bold>\<open>The program.\<close> One browser script keeps a list of tasks in a global \<^verbatim>\<open>state\<close>,
  loads it once from \<^verbatim>\<open>localStorage\<close> (\<^verbatim>\<open>loadState\<close>), and after every change writes
  it back (\<^verbatim>\<open>saveState\<close>) and redraws the five zones from it (\<^verbatim>\<open>render\<close>,
  \<^verbatim>\<open>getTasksInZone\<close>, \<^verbatim>\<open>renderTask\<close>). The changes are \<^verbatim>\<open>addTask\<close>,
  \<^verbatim>\<open>toggleCompleted\<close>, \<^verbatim>\<open>moveTask\<close> and \<^verbatim>\<open>clearCompleted\<close>, called from the form,
  card-click, drop and button handlers.

  \<^bold>\<open>Theories.\<close>
  \<^item> \<open>Prelude\<close>: JavaScript strings as UTF-16 code units (\<open>js_string = 16 word list\<close>),
    the find-then-mutate idiom (\<open>update_first\<close>), the all-or-nothing map of a callback
    that may throw (\<open>those\<close>), and the \<open>js_eval\<close> collection used to evaluate the
    model on concrete inputs.
  \<^item> \<open>Json\<close>: the values \<^verbatim>\<open>JSON.parse\<close> builds (\<open>json\<close>) and the language
    operations the hygiene code relies on: ToBoolean (\<open>truthy\<close>), property access
    (\<open>js_get\<close>), ToString with its TypeError (\<open>js_to_string\<close>), ToPropertyKey
    (\<open>property_key\<close>), \<^verbatim>\<open>String.prototype.trim\<close> (\<open>trim\<close>).
  \<^item> \<open>Board\<close>: \<^verbatim>\<open>STORAGE_KEY\<close>, \<^verbatim>\<open>ZONES\<close>, \<^verbatim>\<open>TAGS\<close> (lines 8--18), the task
    object (record \<open>task\<close>), the global state (record \<open>app_state\<close>: \<^verbatim>\<open>tasks\<close>
    and the other fields of the stored record), the lookup \<^verbatim>\<open>TAGS[k]\<close> with the keys
    inherited from \<^verbatim>\<open>Object.prototype\<close> (\<open>tags_get\<close>), and the invariant the code keeps
    (\<open>task_ok\<close>, \<open>state_ok\<close>).
  \<^item> \<open>Persistence\<close>: \<^verbatim>\<open>loadState\<close> (lines 34--57) as \<open>loadState\<close> with its helpers
    \<open>keep_entry\<close> (the \<^verbatim>\<open>filter\<close>), \<open>clean_task\<close> (the \<^verbatim>\<open>map\<close> callback) and
    \<open>clean_tasks\<close>; \<^verbatim>\<open>saveState\<close> (lines 59--61) as \<open>saveState\<close> over the
    serialised value \<open>state_json\<close>.
  \<^item> \<open>View\<close>: \<^verbatim>\<open>sortByCreatedAt\<close>, \<^verbatim>\<open>getTasksInZone\<close> (the engine's stable sort is
    \<open>js_sort\<close>), \<^verbatim>\<open>renderTask\<close> and \<^verbatim>\<open>render\<close> (lines 63--143) producing a view
    description instead of DOM nodes.
  \<^item> \<open>Controller\<close>: the world (state, storage, view), \<^verbatim>\<open>uid\<close>, the four operations
    (lines 145--188), the save-then-render step \<open>commit\<close>, the page load
    \<open>init_world\<close>, and the reachable worlds (\<open>reachable\<close>, one \<open>action\<close> per step);
    \<open>commits\<close> is the negation of each operation's early returns.
  \<^item> \<open>Ui\<close>: the event handlers (lines 118--140 and 190--223) as one step function
    \<open>ui_step\<close> over a page (record \<open>ui\<close>: the world, the form controls' values, the
    per-card \<^verbatim>\<open>dataset.dragging\<close> flags and the drag data store); \<open>dispatch\<close> is a
    handler's call of an operation, after which \<^verbatim>\<open>render()\<close> has replaced every card
    (a new \<open>generation\<close>, no flag set); \<open>ui_reachable\<close> is the set of pages a
    sequence of user events reaches from a load; \<open>ui_run\<close> handles an event list.
  \<^item> \<open>Abstract_Board\<close>: the board as the specification states it: zones and tags as
    the enumerations \<open>zone_t\<close> and \<open>tag_t\<close>, abstract tasks (\<open>atask\<close>), the four
    operations and the per-zone view as list functions (\<open>a_add\<close>, \<open>a_toggle\<close>,
    \<open>a_move\<close>, \<open>a_clear\<close>, \<open>a_view\<close>, \<open>a_render\<close>, interpreted on the shared
    \<open>action\<close> datatype by \<open>a_run\<close>), and the abstraction \<open>abs_board\<close> of a concrete
    task list, defined exactly on the boards that meet the specification's zone and tag
    invariant.
  \<^item> this theory: the specification's end-to-end scenario, which spans the components.

  \<^bold>\<open>Environment.\<close> \<^verbatim>\<open>JSON.parse\<close>, \<^verbatim>\<open>JSON.stringify\<close>, \<^verbatim>\<open>Date.now()\<close>,
  \<^verbatim>\<open>Math.random()\<close> and the set of zone elements on the page are library or DOM
  behaviour the program only calls; they are parameters (\<open>parse\<close>, \<open>page\<close>,
  \<open>clock\<close>, the arguments of \<open>addTask\<close>). The theorems that need the JSON library to
  be consistent assume it at the one value in question (\<open>json_codec\<close>). No fuel or bound
  is needed: every function of the model is total and structurally recursive.

  \<^bold>\<open>What is proved.\<close> The operations behave as the specification says on every branch,
  the early returns included (C1--C6); each zone is shown sorted by \<^verbatim>\<open>createdAt\<close>,
  stably, and \<^verbatim>\<open>sortByCreatedAt\<close> is a consistent comparator for which every
  conforming engine's sort is the stable sort by \<^verbatim>\<open>createdAt\<close> (C7, C8); \<^verbatim>\<open>loadState\<close> establishes the hygiene invariant and every operation
  keeps it (C9, C10); saving and loading round-trip (C11); a corrupt record loads as an
  empty board (C12); the specification's end-to-end scenario holds (C13); rendering never
  throws on a well-formed state (C14); every reachable world shows the render of its state
  and touches no other storage key (C15), and reloading after any write restores the
  board (C16). Four theorems record where the code departs from the specification: a
  loaded tag falls outside the five names exactly when the stored value passes
  \<^verbatim>\<open>TAGS[t.tag]\<close> without being one of the five strings, i.e. an inherited
  \<^verbatim>\<open>Object.prototype\<close> key or a non-string such as \<^verbatim>\<open>["deep"]\<close> (C17); truncation to 120 UTF-16 code units can split a surrogate
  pair (C18); one task text that cannot be converted to a string empties the whole board
  (C19); the loaded ids are exactly those of the kept entries, repeated ids included (C20). On the pages a user can reach: a click on a card toggles the task the card
  shows and re-renders (C21), a click during a drag is ignored (C22), a drag from a card
  and a drop on a zone moves that task (C23), submitting the form adds a task exactly for a
  non-blank text and always clears the field (C25), and every card shows a task of the
  board while only current cards carry a drag flag (C26). A task whose id is the empty
  string can be loaded and shown but never moved, because the drop handler tests
  \<^verbatim>\<open>taskId && zone\<close> (C24). The controller and the renderer refine the
  specification: on a board with an abstract reading and unique ids each operation yields
  the board of the specification's operation (C27), \<^verbatim>\<open>render()\<close> yields the
  specification's view (C28), every operation keeps the board inside the specification's
  zone and tag invariant, on which the abstract reading is defined (C29), and the operations keep ids unique when \<^verbatim>\<open>uid()\<close> is fresh (C30).
  An id reads back as the timestamp and random part it was built from, so ids from
  different clock readings differ (C31; \<open>parse_int\<close> and \<open>uid_parts\<close> are the reference
  decoders). \<^verbatim>\<open>render()\<close> shows each task of a present zone exactly once (C32), and
  the number of cards on a reachable page is the number of such tasks (C33). From every
  reachable page with all zones present the user can empty the board with at most three
  events per task (C34, liveness; \<open>ui_run\<close> runs an event sequence). The record
  \<^verbatim>\<open>saveState\<close> writes has the persisted layout of the specification, except that the
  tag is only guaranteed to pass the \<^verbatim>\<open>TAGS\<close> test (C35, \<open>state_schema\<close>).

  \<^bold>\<open>Not modelled, and why.\<close> The DOM tree, CSS classes added for visual feedback
  (\<^verbatim>\<open>dragging\<close>, \<^verbatim>\<open>drag-over\<close>) and focus handling are presentation. JSON
  numbers other than integers are not modelled (the program writes \<^verbatim>\<open>Date.now()\<close>).
  Exceptions thrown by \<^verbatim>\<open>localStorage\<close> itself (quota, disabled storage) are out of
  the specification's scope. In the interaction layer, the browser's choice of which
  events can follow which (a \<^verbatim>\<open>dragend\<close> always after its \<^verbatim>\<open>dragstart\<close>, no
  click during a native drag) is not assumed: \<open>ui_step\<close> accepts every event in every
  order, so the properties hold for any sequence. A \<^verbatim>\<open>render()\<close> that throws
  midway (only possible on a state outside the invariant) is not modelled as a partly
  replaced page. JSON objects are association lists read with \<open>map_of\<close> (the first
  binding of a key), so \<^verbatim>\<open>parse\<close> is taken to yield objects with distinct keys, as
  \<^verbatim>\<open>JSON.parse\<close> does (it keeps the last of repeated keys). The serialised record
  puts \<^verbatim>\<open>tasks\<close> first and the other fields after it; the real object keeps the
  parsed key order, so the stored string may differ in key order only.
\<close>

subsection \<open>The specification's end-to-end scenario\<close>

text \<open>
  C13. On a board without tasks: adding \<^verbatim>\<open>{tag: "deep", text: "Write spec"}\<close> shows
  it, unchecked, in \<^verbatim>\<open>unassigned\<close>; toggling it marks it completed; moving it to
  \<^verbatim>\<open>do\<close> shows it there, still completed, and nowhere else; \<^verbatim>\<open>clearCompleted\<close>
  removes it from every zone and writes the empty collection to storage.
\<close>

theorem end_to_end:
  assumes "tasks (state w0) = []"
  shows "let i = uid t_id rnd;
             w1 = addTask pg t_id rnd t_created (js_str ''deep'') (js_str ''Write spec'') w0;
             w2 = toggleCompleted pg i w1;
             w3 = moveTask pg i (js_str ''do'') w2;
             w4 = clearCompleted pg w3
         in map task_text (getTasksInZone (state w1) (js_str ''unassigned'')) = [js_str ''Write spec'']
          \<and> map tag (getTasksInZone (state w1) (js_str ''unassigned'')) = [JStr (js_str ''deep'')]
          \<and> map completed (getTasksInZone (state w1) (js_str ''unassigned'')) = [False]
          \<and> map completed (getTasksInZone (state w2) (js_str ''unassigned'')) = [True]
          \<and> map completed (getTasksInZone (state w3) (js_str ''do'')) = [True]
          \<and> getTasksInZone (state w3) (js_str ''unassigned'') = []
          \<and> (\<forall>z. getTasksInZone (state w4) z = [])
          \<and> storage w4 STORAGE_KEY = Some (stringify pg (JObj ((js_str ''tasks'', JArr []) # extra (state w0))))"
proof -
  let ?i = "uid t_id rnd"
  let ?t = "new_task t_id rnd t_created (js_str ''deep'') (js_str ''Write spec'')"
  let ?w1 = "addTask pg t_id rnd t_created (js_str ''deep'') (js_str ''Write spec'') w0"
  let ?w2 = "toggleCompleted pg ?i ?w1"
  let ?w3 = "moveTask pg ?i (js_str ''do'') ?w2"
  have trim: "trim (js_str ''Write spec'') = js_str ''Write spec''"
    by (simp add: trim_def is_js_space_def js_space_units_def js_str_simps)
  have deep: "tag_truthy (js_str ''deep'')"
    by (simp add: tag_truthy_def tags_get_def TAGS_def)
  have s1: "state ?w1 = (state w0)\<lparr>tasks := [?t]\<rparr>"
    using assms trim by (simp add: addTask_def)
  have s2: "state ?w2 = (state w0)\<lparr>tasks := [?t\<lparr>completed := True\<rparr>]\<rparr>"
    using s1 by (simp add: toggleCompleted_def new_task_def)
  have s3: "state ?w3 = (state w0)\<lparr>tasks := [?t\<lparr>completed := True, zone := js_str ''do''\<rparr>]\<rparr>"
    using s2 by (simp add: moveTask_def new_task_def ZONES_def)
  have s4: "state (clearCompleted pg ?w3) = (state w0)\<lparr>tasks := []\<rparr>"
    and st4: "storage (clearCompleted pg ?w3) STORAGE_KEY
               = Some (stringify pg (JObj ((js_str ''tasks'', JArr []) # extra (state w0))))"
    using s3 by (simp_all add: clearCompleted_eq saveState_def state_json_def new_task_def)
  show ?thesis
    using s1 s2 s3 s4 st4 deep
    by (simp add: Let_def getTasksInZone_def js_sort_def new_task_def)
qed

theorem end_to_end_witness:
  "tasks (state empty_world) = []
   \<and> getTasksInZone (state (clearCompleted demo_page
         (moveTask demo_page (uid 1 (js_str ''a'')) (js_str ''do'')
           (toggleCompleted demo_page (uid 1 (js_str ''a''))
             (addTask demo_page 1 (js_str ''a'') 2 (js_str ''deep'') (js_str ''Write spec'') empty_world)))))
       (js_str ''do'') = []"
proof -
  have h: "tasks (state empty_world) = []"
    by (simp add: empty_state_def)
  show ?thesis
    using end_to_end [OF h, of 1 "js_str ''a''" demo_page 2] h
    unfolding Let_def by blast
qed

subsection \<open>Where the code departs from the specification\<close>

end
